theory Spec2Isabelle
  imports Main "HOL-Library.Word" "HOL-Library.Product_Lexorder"
begin

section \<open>Data model\<close>

text \<open>
  \<^verbatim>\<open>app/data/schemas/models.py\<close> and \<^verbatim>\<open>app/data/DTO/template_dto.py\<close>.
  A \<^verbatim>\<open>UUID\<close> is its 128-bit integer; a naive \<^verbatim>\<open>datetime\<close> is the record of its
  seven fields, compared field by field as Python compares naive datetimes. Text is
  \<open>string\<close>: the code points 0..255 of a Python \<^verbatim>\<open>str\<close>.
\<close>

type_synonym uuid = "128 word"

record datetime =
  year :: nat
  month :: nat
  day :: nat
  hour :: nat
  minute :: nat
  second :: nat
  microsecond :: nat

definition datetime_fields :: "datetime \<Rightarrow> nat \<times> nat \<times> nat \<times> nat \<times> nat \<times> nat \<times> nat" where
  "datetime_fields d = (year d, month d, day d, hour d, minute d, second d, microsecond d)"

definition datetime_lt :: "datetime \<Rightarrow> datetime \<Rightarrow> bool" where
  "datetime_lt a b = (datetime_fields a < datetime_fields b)"

datatype TemplateStatus = DRAFT | PUBLISHED

text \<open>The table model \<^verbatim>\<open>TemplateItem\<close>. Its \<^verbatim>\<open>id\<close> is always filled by the default factory
  \<^verbatim>\<open>uuid4\<close> on the paths embedded here, and is the primary key of the table.\<close>

record TemplateItem =
  id' :: uuid
  title :: string
  body :: "string option"
  status :: TemplateStatus
  created_at :: datetime
  updated_at :: datetime

record TemplateCreateRequest =
  title :: string
  body :: "string option"
  status :: TemplateStatus

record TemplateUpdateRequest =
  title :: "string option"
  body :: "string option"
  status :: "TemplateStatus option"

record TemplateResponse =
  id' :: uuid
  title :: string
  body :: "string option"
  status :: TemplateStatus
  created_at :: datetime
  updated_at :: datetime

record TemplateListResponse =
  source :: string
  templates :: "TemplateResponse list"
  total' :: "int option"
  limit :: "int option"
  offset :: "int option"

record TemplateCreateResponse =
  message :: string
  template :: TemplateResponse

text \<open>Python values as they travel through dictionaries and through the cache: what
  \<^verbatim>\<open>model_dump\<close> puts into a dict and what \<^verbatim>\<open>json.loads\<close> returns. A float is kept as the
  text of its literal.\<close>

datatype pyval =
    PNone
  | PBool bool
  | PInt int
  | PFloat string
  | PStr string
  | PUuid uuid
  | PDatetime datetime
  | PStatus TemplateStatus
  | PList "pyval list"
  | PDict "(string \<times> pyval) list"

text \<open>The exceptions the embedded code raises, catches or lets through.\<close>

datatype exn =
    StoreFailure
  | IntegrityError
  | ValueError
  | TypeError
  | IndexError
  | ValidationError
  | RedisError
  | JSONDecodeError
  | NotRepresentable

section \<open>Python text\<close>

text \<open>
  The library functions the embedded code calls, on text over the code points 0..255:
  \<^verbatim>\<open>str.split\<close>, \<^verbatim>\<open>int\<close>, \<^verbatim>\<open>str\<close> of a UUID and of a datetime, \<^verbatim>\<open>json.dumps\<close> and
  \<^verbatim>\<open>json.loads\<close>. Limits of the interpreter (recursion depth, the digit limit of
  \<^verbatim>\<open>int\<close>) are not modelled.
\<close>

definition code_point :: "char \<Rightarrow> nat" where
  "code_point c = of_char c"

definition is_digit :: "char \<Rightarrow> bool" where
  "is_digit c = (48 \<le> code_point c \<and> code_point c \<le> 57)"

definition digit_value :: "char \<Rightarrow> nat" where
  "digit_value c = code_point c - 48"

definition is_hex_digit :: "char \<Rightarrow> bool" where
  "is_hex_digit c = (is_digit c \<or> (97 \<le> code_point c \<and> code_point c \<le> 102)
                      \<or> (65 \<le> code_point c \<and> code_point c \<le> 70))"

definition hex_value :: "char \<Rightarrow> nat" where
  "hex_value c = (if is_digit c then code_point c - 48
                  else if 97 \<le> code_point c then code_point c - 87
                  else code_point c - 55)"

definition digit_char :: "nat \<Rightarrow> char" where
  "digit_char d = ''0123456789abcdef'' ! d"

primrec fixed_digits :: "nat \<Rightarrow> nat \<Rightarrow> nat \<Rightarrow> string" where
  "fixed_digits b 0 n = []"
| "fixed_digits b (Suc k) n = fixed_digits b k (n div b) @ [digit_char (n mod b)]"

definition nat_of_digits :: "nat \<Rightarrow> string \<Rightarrow> nat" where
  "nat_of_digits b s = foldl (\<lambda>acc c. acc * b + hex_value c) 0 s"

function decimal :: "nat \<Rightarrow> string" where
  "decimal n = (if n < 10 then [digit_char n] else decimal (n div 10) @ [digit_char (n mod 10)])"
  by pat_completeness auto
termination
  by (relation "measure id") auto

definition repr_int :: "int \<Rightarrow> string" where
  "repr_int i = (if i < 0 then CHR ''-'' # decimal (nat (- i)) else decimal (nat i))"

text \<open>\<^verbatim>\<open>str.split(sep)\<close> and \<^verbatim>\<open>str.split(sep, maxsplit)\<close> for a separator that is not empty.\<close>

fun find_sep :: "string \<Rightarrow> string \<Rightarrow> (string \<times> string) option" where
  "find_sep sep [] = None"
| "find_sep sep (c # s) =
     (if take (length sep) (c # s) = sep then Some ([], drop (length sep) (c # s))
      else map_option (\<lambda>(a, b). (c # a, b)) (find_sep sep s))"

lemma find_sep_length:
  "find_sep sep s = Some (a, b) \<Longrightarrow> length a + length sep + length b = length s"
proof (induction s arbitrary: a b)
  case Nil
  then show ?case by simp
next
  case (Cons c s)
  show ?case
  proof (cases "take (length sep) (c # s) = sep")
    case True
    with Cons.prems have a: "a = []" and b: "b = drop (length sep) (c # s)" by auto
    from True have "length (take (length sep) (c # s)) = length sep" by simp
    then have "length sep \<le> length (c # s)" by (simp del: take_Suc_Cons)
    with a b show ?thesis by simp
  next
    case False
    with Cons.prems obtain a' where "find_sep sep s = Some (a', b)" "a = c # a'"
      by (auto split: option.splits prod.splits)
    with Cons.IH show ?thesis by auto
  qed
qed

function py_split :: "string \<Rightarrow> string \<Rightarrow> string list" where
  "py_split sep s =
     (if sep = [] then [s]
      else case find_sep sep s of
             None \<Rightarrow> [s]
           | Some (a, b) \<Rightarrow> a # py_split sep b)"
  by pat_completeness auto
termination
proof (relation "measure (\<lambda>(sep, s). length s)")
  show "wf (measure (\<lambda>(sep, s). length s))" by simp
next
  fix sep s :: string and x2 a b
  assume "sep \<noteq> []" "find_sep sep s = Some x2" "(a, b) = x2"
  then have "length a + length sep + length b = length s"
    using find_sep_length by metis
  with \<open>sep \<noteq> []\<close> show "((sep, b), (sep, s)) \<in> measure (\<lambda>(sep, s). length s)"
    by (cases sep) auto
qed

primrec py_split_max :: "string \<Rightarrow> nat \<Rightarrow> string \<Rightarrow> string list" where
  "py_split_max sep 0 s = [s]"
| "py_split_max sep (Suc k) s =
     (case find_sep sep s of
        None \<Rightarrow> [s]
      | Some (a, b) \<Rightarrow> a # py_split_max sep k b)"

text \<open>\<^verbatim>\<open>int(s)\<close> for text.\<close>

definition is_space :: "char \<Rightarrow> bool" where
  "is_space c = (let n = code_point c in
     (9 \<le> n \<and> n \<le> 13) \<or> (28 \<le> n \<and> n \<le> 32) \<or> n = 133 \<or> n = 160)"

definition py_strip :: "string \<Rightarrow> string" where
  "py_strip s = rev (dropWhile is_space (rev (dropWhile is_space s)))"

fun int_digits :: "nat \<Rightarrow> string \<Rightarrow> nat option" where
  "int_digits acc [] = Some acc"
| "int_digits acc [c] = (if is_digit c then Some (acc * 10 + digit_value c) else None)"
| "int_digits acc (c # d # s) =
     (if is_digit c then int_digits (acc * 10 + digit_value c) (d # s)
      else if c = CHR ''_'' \<and> is_digit d then int_digits (acc * 10 + digit_value d) s
      else None)"

definition py_int :: "string \<Rightarrow> int option" where
  "py_int s =
     (case py_strip s of
        [] \<Rightarrow> None
      | c # r \<Rightarrow>
          (let negative = (c = CHR ''-'');
               digits = (if c = CHR ''-'' \<or> c = CHR ''+'' then r else c # r)
           in case digits of
                [] \<Rightarrow> None
              | d # r' \<Rightarrow>
                  if is_digit d
                  then map_option (\<lambda>n. if negative then - int n else int n)
                         (int_digits (digit_value d) r')
                  else None))"


section \<open>UUID and datetime as text\<close>

definition str_uuid :: "uuid \<Rightarrow> string" where
  "str_uuid u =
     (let h = fixed_digits 16 32 (unat u)
      in take 8 h @ ''-'' @ take 4 (drop 8 h) @ ''-'' @ take 4 (drop 12 h) @ ''-''
         @ take 4 (drop 16 h) @ ''-'' @ drop 20 h)"

definition uuid_of_str :: "string \<Rightarrow> uuid option" where
  "uuid_of_str s =
     (let h = take 8 s @ take 4 (drop 9 s) @ take 4 (drop 14 s) @ take 4 (drop 19 s) @ drop 24 s
      in if length s = 36 \<and> s ! 8 = CHR ''-'' \<and> s ! 13 = CHR ''-'' \<and> s ! 18 = CHR ''-''
            \<and> s ! 23 = CHR ''-'' \<and> list_all is_hex_digit h
         then Some (of_nat (nat_of_digits 16 h)) else None)"

definition days_in_month :: "nat \<Rightarrow> nat \<Rightarrow> nat" where
  "days_in_month y m =
     (if m = 2 then (if y mod 4 = 0 \<and> (y mod 100 \<noteq> 0 \<or> y mod 400 = 0) then 29 else 28)
      else if m = 4 \<or> m = 6 \<or> m = 9 \<or> m = 11 then 30 else 31)"

definition valid_datetime :: "datetime \<Rightarrow> bool" where
  "valid_datetime d =
     (1 \<le> year d \<and> year d \<le> 9999 \<and> 1 \<le> month d \<and> month d \<le> 12
      \<and> 1 \<le> day d \<and> day d \<le> days_in_month (year d) (month d)
      \<and> hour d < 24 \<and> minute d < 60 \<and> second d < 60 \<and> microsecond d < 1000000)"

definition str_datetime :: "datetime \<Rightarrow> string" where
  "str_datetime d =
     fixed_digits 10 4 (year d) @ ''-'' @ fixed_digits 10 2 (month d) @ ''-''
     @ fixed_digits 10 2 (day d) @ '' '' @ fixed_digits 10 2 (hour d) @ '':''
     @ fixed_digits 10 2 (minute d) @ '':'' @ fixed_digits 10 2 (second d)
     @ (if microsecond d = 0 then [] else ''.'' @ fixed_digits 10 6 (microsecond d))"

definition datetime_of_str :: "string \<Rightarrow> datetime option" where
  "datetime_of_str s =
     (let digits = take 4 s @ take 2 (drop 5 s) @ take 2 (drop 8 s) @ take 2 (drop 11 s)
                   @ take 2 (drop 14 s) @ take 2 (drop 17 s) @ drop 20 s;
          d = \<lparr>year = nat_of_digits 10 (take 4 s), month = nat_of_digits 10 (take 2 (drop 5 s)),
               day = nat_of_digits 10 (take 2 (drop 8 s)),
               hour = nat_of_digits 10 (take 2 (drop 11 s)),
               minute = nat_of_digits 10 (take 2 (drop 14 s)),
               second = nat_of_digits 10 (take 2 (drop 17 s)),
               microsecond = nat_of_digits 10 (drop 20 s)\<rparr>
      in if (length s = 19 \<or> (length s = 26 \<and> s ! 19 = CHR ''.''))
            \<and> s ! 4 = CHR ''-'' \<and> s ! 7 = CHR ''-'' \<and> s ! 10 = CHR '' ''
            \<and> s ! 13 = CHR '':'' \<and> s ! 16 = CHR '':''
            \<and> list_all is_digit digits \<and> valid_datetime d
         then Some d else None)"

section \<open>json.dumps\<close>

definition dquote :: char where "dquote = CHR 0x22"
definition backslash :: char where "backslash = CHR 0x5C"

definition json_escape_char :: "char \<Rightarrow> string" where
  "json_escape_char c =
     (if c = dquote then [backslash, dquote]
      else if c = backslash then [backslash, backslash]
      else if c = CHR 0x0A then [backslash, CHR ''n'']
      else if c = CHR 0x0D then [backslash, CHR ''r'']
      else if c = CHR 0x09 then [backslash, CHR ''t'']
      else if c = CHR 0x08 then [backslash, CHR ''b'']
      else if c = CHR 0x0C then [backslash, CHR ''f'']
      else if 32 \<le> code_point c \<and> code_point c \<le> 126 then [c]
      else backslash # CHR ''u'' # fixed_digits 16 4 (code_point c))"

definition json_string :: "string \<Rightarrow> string" where
  "json_string s = dquote # concat (map json_escape_char s) @ [dquote]"

fun join :: "string \<Rightarrow> string list \<Rightarrow> string" where
  "join sep [] = []"
| "join sep [x] = x"
| "join sep (x # y # r) = x @ sep @ join sep (y # r)"

definition status_value :: "TemplateStatus \<Rightarrow> string" where
  "status_value s = (case s of DRAFT \<Rightarrow> ''DRAFT'' | PUBLISHED \<Rightarrow> ''PUBLISHED'')"

fun json_dumps :: "pyval \<Rightarrow> string" where
  "json_dumps PNone = ''null''"
| "json_dumps (PBool b) = (if b then ''true'' else ''false'')"
| "json_dumps (PInt i) = repr_int i"
| "json_dumps (PFloat lexeme) = lexeme"
| "json_dumps (PStr s) = json_string s"
| "json_dumps (PUuid u) = json_string (str_uuid u)"
| "json_dumps (PDatetime d) = json_string (str_datetime d)"
| "json_dumps (PStatus s) = json_string (status_value s)"
| "json_dumps (PList xs) = ''['' @ join '', '' (map json_dumps xs) @ '']''"
| "json_dumps (PDict kvs) =
     ''{'' @ join '', '' (map (\<lambda>kv. json_string (fst kv) @ '': '' @ json_dumps (snd kv)) kvs) @ ''}''"

section \<open>json.loads\<close>

definition is_ws :: "char \<Rightarrow> bool" where
  "is_ws c = (c = CHR '' '' \<or> c = CHR 0x09 \<or> c = CHR 0x0A \<or> c = CHR 0x0D)"

definition skip_ws :: "string \<Rightarrow> string" where
  "skip_ws s = dropWhile is_ws s"

definition unescape :: "char \<Rightarrow> char option" where
  "unescape c =
     (if c = dquote then Some dquote
      else if c = backslash then Some backslash
      else if c = CHR ''/'' then Some CHR ''/''
      else if c = CHR ''b'' then Some (CHR 0x08)
      else if c = CHR ''f'' then Some (CHR 0x0C)
      else if c = CHR ''n'' then Some (CHR 0x0A)
      else if c = CHR ''r'' then Some (CHR 0x0D)
      else if c = CHR ''t'' then Some (CHR 0x09)
      else None)"

definition push_char :: "char \<Rightarrow> exn + (string \<times> string) \<Rightarrow> exn + (string \<times> string)" where
  "push_char c res = (case res of Inl x \<Rightarrow> Inl x | Inr (s, rest) \<Rightarrow> Inr (c # s, rest))"

function scanstring :: "string \<Rightarrow> exn + (string \<times> string)" where
  "scanstring [] = Inl JSONDecodeError"
| "scanstring (c # s) =
     (if c = dquote then Inr ([], s)
      else if c = backslash then
        (case s of
           [] \<Rightarrow> Inl JSONDecodeError
         | e # s' \<Rightarrow>
             if e = CHR ''u'' then
               (if length s' \<ge> 4 \<and> list_all is_hex_digit (take 4 s') then
                  (if nat_of_digits 16 (take 4 s') < 256
                   then push_char (char_of (nat_of_digits 16 (take 4 s'))) (scanstring (drop 4 s'))
                   else Inl NotRepresentable)
                else Inl JSONDecodeError)
             else (case unescape e of
                     None \<Rightarrow> Inl JSONDecodeError
                   | Some ch \<Rightarrow> push_char ch (scanstring s')))
      else if code_point c < 32 then Inl JSONDecodeError
      else push_char c (scanstring s))"
  by pat_completeness auto
termination
  by (relation "measure length") auto

lemma push_char_Inr:
  "push_char c res = Inr (s, rest) \<Longrightarrow> \<exists>s'. res = Inr (s', rest) \<and> s = c # s'"
  by (auto simp: push_char_def split: sum.splits)

lemma scanstring_shorter:
  "scanstring s = Inr (str, rest) \<Longrightarrow> length rest < length s"
proof (induction s arbitrary: str rule: scanstring.induct)
  case 1
  then show ?case by simp
next
  case (2 c s)
  show ?case
  proof (cases "c = dquote")
    case True
    with "2.prems" show ?thesis by simp
  next
    case nq: False
    show ?thesis
    proof (cases "c = backslash")
      case True
      show ?thesis
      proof (cases s)
        case Nil
        with "2.prems" nq True show ?thesis by simp
      next
        case (Cons e s')
        show ?thesis
        proof (cases "e = CHR ''u''")
          case u: True
          with "2.prems" nq True Cons
          have ok: "length s' \<ge> 4" "list_all is_hex_digit (take 4 s')"
            "nat_of_digits 16 (take 4 s') < 256"
            and r: "push_char (char_of (nat_of_digits 16 (take 4 s'))) (scanstring (drop 4 s'))
                = Inr (str, rest)"
            by (auto split: if_splits)
          from push_char_Inr [OF r] obtain t where "scanstring (drop 4 s') = Inr (t, rest)" by blast
          from "2.IH"(1) [OF nq True Cons u _ _ this] ok
          have "length rest < length (drop 4 s')" by simp
          with Cons show ?thesis by simp
        next
          case nu: False
          with "2.prems" nq True Cons obtain ch where ch: "unescape e = Some ch"
            and r: "push_char ch (scanstring s') = Inr (str, rest)"
            by (auto split: option.splits)
          from push_char_Inr [OF r] obtain t where "scanstring s' = Inr (t, rest)" by blast
          from "2.IH"(2) [OF nq True Cons nu ch this]
          show ?thesis using Cons by simp
        qed
      qed
    next
      case nb: False
      with "2.prems" nq have c32: "\<not> code_point c < 32"
        and r: "push_char c (scanstring s) = Inr (str, rest)"
        by (auto split: if_splits)
      from push_char_Inr [OF r] obtain t where "scanstring s = Inr (t, rest)" by blast
      from "2.IH"(3) [OF nq nb c32 this] show ?thesis by simp
    qed
  qed
qed

lemma skip_ws_length: "length (skip_ws s) \<le> length s"
  by (simp add: skip_ws_def length_dropWhile_le)

text \<open>The number at the head of the text, as the scanner matches it:
  \<^verbatim>\<open>-?(0|[1-9][0-9]*)(\.[0-9]+)?([eE][-+]?[0-9]+)?\<close>. Without fraction and exponent it is
  an \<^verbatim>\<open>int\<close>, otherwise a \<^verbatim>\<open>float\<close>.\<close>

definition match_fraction :: "string \<Rightarrow> string \<times> string" where
  "match_fraction s =
     (case s of
        c # d # t \<Rightarrow>
          if c = CHR ''.'' \<and> is_digit d
          then (c # d # takeWhile is_digit t, dropWhile is_digit t)
          else ([], s)
      | _ \<Rightarrow> ([], s))"

definition match_exponent :: "string \<Rightarrow> string \<times> string" where
  "match_exponent s =
     (case s of
        [] \<Rightarrow> ([], s)
      | c # t \<Rightarrow>
          if c = CHR ''e'' \<or> c = CHR ''E'' then
            (let sign = (case t of
                           [] \<Rightarrow> []
                         | x # _ \<Rightarrow> if x = CHR ''+'' \<or> x = CHR ''-'' then [x] else []);
                 t' = drop (length sign) t
             in if takeWhile is_digit t' = [] then ([], s)
                else (c # sign @ takeWhile is_digit t', dropWhile is_digit t'))
          else ([], s))"

definition match_number :: "string \<Rightarrow> exn + (pyval \<times> string)" where
  "match_number s =
     (let minus = (case s of [] \<Rightarrow> [] | c # _ \<Rightarrow> if c = CHR ''-'' then [c] else []);
          s1 = drop (length minus) s
      in case s1 of
           [] \<Rightarrow> Inl JSONDecodeError
         | d # t \<Rightarrow>
             if is_digit d then
               (let integer = (if d = CHR ''0'' then [d] else d # takeWhile is_digit t);
                    r = drop (length integer) s1;
                    (frac, r1) = match_fraction r;
                    (ex, r2) = match_exponent r1
                in if frac = [] \<and> ex = []
                   then Inr (PInt (if minus = [] then int (nat_of_digits 10 integer)
                                   else - int (nat_of_digits 10 integer)), r2)
                   else Inr (PFloat (minus @ integer @ frac @ ex), r2))
             else Inl JSONDecodeError)"

lemma match_fraction_length: "match_fraction s = (f, r) \<Longrightarrow> length r \<le> length s"
  by (auto simp: match_fraction_def length_dropWhile_le le_SucI split: list.splits if_splits)

lemma match_exponent_length: "match_exponent s = (x, r) \<Longrightarrow> length r \<le> length s"
proof -
  have *: "length (dropWhile is_digit t) \<le> Suc (Suc (length t))" for t
    by (rule order_trans [OF length_dropWhile_le]) simp
  assume "match_exponent s = (x, r)"
  then show ?thesis
    by (auto simp: match_exponent_def Let_def * split: list.splits if_splits)
qed

lemma match_number_shorter:
  assumes "match_number s = Inr (v, r)" shows "length r < length s"
proof -
  define minus where "minus = (case s of [] \<Rightarrow> [] | c # _ \<Rightarrow> if c = CHR ''-'' then [c] else [])"
  define s1 where "s1 = drop (length minus) s"
  from assms obtain d t where s1: "s1 = d # t" and d: "is_digit d"
    by (auto simp: match_number_def Let_def minus_def s1_def split: list.splits if_splits prod.splits)
  define integer where "integer = (if d = CHR ''0'' then [d] else d # takeWhile is_digit t)"
  define r0 where "r0 = drop (length integer) s1"
  obtain frac r1 where f: "match_fraction r0 = (frac, r1)" by (cases "match_fraction r0")
  obtain ex r2 where x: "match_exponent r1 = (ex, r2)" by (cases "match_exponent r1")
  have "r = r2" using assms s1 d f x
    unfolding match_number_def Let_def minus_def [symmetric] s1_def [symmetric]
    by (auto simp: integer_def r0_def split: if_splits)
  moreover have "length r2 \<le> length r0"
    using match_fraction_length [OF f] match_exponent_length [OF x] by simp
  moreover have "length r0 < length s1" by (simp add: r0_def integer_def s1)
  moreover have "length s1 \<le> length s" by (simp add: s1_def)
  ultimately show ?thesis by simp
qed

fun dict_set :: "(string \<times> pyval) list \<Rightarrow> string \<Rightarrow> pyval \<Rightarrow> (string \<times> pyval) list" where
  "dict_set [] key v = [(key, v)]"
| "dict_set ((k, x) # rest) key v =
     (if k = key then (k, v) # rest else (k, x) # dict_set rest key v)"

function scan_once :: "string \<Rightarrow> exn + (pyval \<times> string)"
  and parse_array :: "pyval list \<Rightarrow> string \<Rightarrow> exn + (pyval \<times> string)"
  and parse_object :: "(string \<times> pyval) list \<Rightarrow> string \<Rightarrow> exn + (pyval \<times> string)"
where
  "scan_once s =
     (case s of
        [] \<Rightarrow> Inl JSONDecodeError
      | c # t \<Rightarrow>
          if c = dquote then
            (case scanstring t of Inl x \<Rightarrow> Inl x | Inr (str, r) \<Rightarrow> Inr (PStr str, r))
          else if c = CHR ''{'' then
            (case skip_ws t of
               [] \<Rightarrow> Inl JSONDecodeError
             | d # r \<Rightarrow> if d = CHR ''}'' then Inr (PDict [], r) else parse_object [] (d # r))
          else if c = CHR ''['' then
            (case skip_ws t of
               [] \<Rightarrow> Inl JSONDecodeError
             | d # r \<Rightarrow> if d = CHR '']'' then Inr (PList [], r) else parse_array [] (d # r))
          else if take 4 s = ''null'' then Inr (PNone, drop 4 s)
          else if take 4 s = ''true'' then Inr (PBool True, drop 4 s)
          else if take 5 s = ''false'' then Inr (PBool False, drop 5 s)
          else if take 3 s = ''NaN'' then Inr (PFloat ''NaN'', drop 3 s)
          else if take 8 s = ''Infinity'' then Inr (PFloat ''Infinity'', drop 8 s)
          else if take 9 s = ''-Infinity'' then Inr (PFloat ''-Infinity'', drop 9 s)
          else match_number s)"
| "parse_array acc s =
     (case scan_once s of
        Inl x \<Rightarrow> Inl x
      | Inr (v, r) \<Rightarrow>
          if length r < length s then
            (case skip_ws r of
               [] \<Rightarrow> Inl JSONDecodeError
             | c # r' \<Rightarrow>
                 if c = CHR '']'' then Inr (PList (acc @ [v]), r')
                 else if c = CHR '','' then parse_array (acc @ [v]) (skip_ws r')
                 else Inl JSONDecodeError)
          else Inl JSONDecodeError)"
| "parse_object acc s =
     (case s of
        [] \<Rightarrow> Inl JSONDecodeError
      | q # s1 \<Rightarrow>
          if q = dquote then
            (case scanstring s1 of
               Inl x \<Rightarrow> Inl x
             | Inr (key, r1) \<Rightarrow>
                 if length r1 < length s1 then
                 (case skip_ws r1 of
                    [] \<Rightarrow> Inl JSONDecodeError
                  | c # r2 \<Rightarrow>
                      if c = CHR '':'' then
                        (case scan_once (skip_ws r2) of
                           Inl x \<Rightarrow> Inl x
                         | Inr (v, r3) \<Rightarrow>
                             if length r3 < length s then
                               (case skip_ws r3 of
                                  [] \<Rightarrow> Inl JSONDecodeError
                                | d # r4 \<Rightarrow>
                                    if d = CHR ''}'' then Inr (PDict (dict_set acc key v), r4)
                                    else if d = CHR '','' then
                                      parse_object (dict_set acc key v) (skip_ws r4)
                                    else Inl JSONDecodeError)
                             else Inl JSONDecodeError)
                      else Inl JSONDecodeError)
                 else Inl JSONDecodeError)
          else Inl JSONDecodeError)"
  by pat_completeness auto
termination
proof (relation "measure (\<lambda>x. case x of
          Inl s \<Rightarrow> 2 * length s
        | Inr (Inl (acc, s)) \<Rightarrow> 2 * length s + 1
        | Inr (Inr (acc, s)) \<Rightarrow> 2 * length s + 1)", goal_cases)
  case 1
  then show ?case by simp
next
  case (2 s c t d r)
  from skip_ws_length [of t] 2 show ?case by simp
next
  case (3 s c t d r)
  from skip_ws_length [of t] 3 show ?case by simp
next
  case (4 acc s)
  then show ?case by simp
next
  case (5 acc s x2 v r c r')
  from skip_ws_length [of r'] skip_ws_length [of r] 5 show ?case by simp
next
  case (6 acc s q s1 x2 key r1 c r2)
  from skip_ws_length [of r2] skip_ws_length [of r1] 6 show ?case by simp
next
  case (7 acc s q s1 x2 key r1 c r2 x2a v r3 d r4)
  from skip_ws_length [of r4] skip_ws_length [of r3] 7 show ?case by simp
qed

definition json_loads :: "string \<Rightarrow> exn + pyval" where
  "json_loads s =
     (case scan_once (skip_ws s) of
        Inl x \<Rightarrow> Inl x
      | Inr (v, r) \<Rightarrow> if skip_ws r = [] then Inr v else Inl JSONDecodeError)"

declare scan_once.simps [simp del] parse_array.simps [simp del] parse_object.simps [simp del]

lemma skip_ws_Cons_length: "skip_ws t = d # r \<Longrightarrow> length r < length t"
  using skip_ws_length [of t] by simp

lemma scan_shorter:
  "scan_once s = Inr (v, r) \<Longrightarrow> length r < length s"
  "parse_array acc s = Inr (v, r) \<Longrightarrow> length r < length s"
  "parse_object acc' s = Inr (v, r) \<Longrightarrow> length r < length s"
proof (induction s and acc s and acc' s arbitrary: v r and v r and v r
       rule: scan_once_parse_array_parse_object.induct)
  case (1 s)
  show ?case
  proof (cases s)
    case Nil
    with "1.prems" show ?thesis by (simp add: scan_once.simps)
  next
    case (Cons c t)
    consider (str) "c = dquote" | (obj) "c \<noteq> dquote" "c = CHR ''{''"
      | (arr) "c \<noteq> dquote" "c \<noteq> CHR ''{''" "c = CHR ''[''"
      | (other) "c \<noteq> dquote" "c \<noteq> CHR ''{''" "c \<noteq> CHR ''[''" by blast
    then show ?thesis
    proof cases
      case str
      with "1.prems" Cons obtain x where "scanstring t = Inr (x, r)"
        by (auto simp: scan_once.simps split: sum.splits)
      from scanstring_shorter [OF this] Cons show ?thesis by simp
    next
      case obj
      show ?thesis
      proof (cases "skip_ws t")
        case Nil
        with "1.prems" Cons obj show ?thesis by (simp add: scan_once.simps)
      next
        case (Cons d r')
        note sk = this
        show ?thesis
        proof (cases "d = CHR ''}''")
          case True
          with "1.prems" \<open>s = c # t\<close> obj sk have "r = r'" by (simp add: scan_once.simps)
          with skip_ws_Cons_length [OF sk] \<open>s = c # t\<close> show ?thesis by simp
        next
          case False
          with "1.prems" \<open>s = c # t\<close> obj sk have "parse_object [] (d # r') = Inr (v, r)"
            by (simp add: scan_once.simps)
          from "1.IH"(1) [OF \<open>s = c # t\<close> obj sk False this]
          have "length r < length (d # r')" .
          with skip_ws_length [of t] sk \<open>s = c # t\<close> show ?thesis by simp
        qed
      qed
    next
      case arr
      show ?thesis
      proof (cases "skip_ws t")
        case Nil
        with "1.prems" Cons arr show ?thesis by (simp add: scan_once.simps)
      next
        case (Cons d r')
        note sk = this
        show ?thesis
        proof (cases "d = CHR '']''")
          case True
          with "1.prems" \<open>s = c # t\<close> arr sk have "r = r'" by (simp add: scan_once.simps)
          with skip_ws_Cons_length [OF sk] \<open>s = c # t\<close> show ?thesis by simp
        next
          case False
          with "1.prems" \<open>s = c # t\<close> arr sk have "parse_array [] (d # r') = Inr (v, r)"
            by (simp add: scan_once.simps)
          from "1.IH"(2) [OF \<open>s = c # t\<close> arr sk False this]
          have "length r < length (d # r')" .
          with skip_ws_length [of t] sk \<open>s = c # t\<close> show ?thesis by simp
        qed
      qed
    next
      case other
      from "1.prems" have "(case s of [] \<Rightarrow> Inl JSONDecodeError | c # t \<Rightarrow>
          if take 4 s = ''null'' then Inr (PNone, drop 4 s)
          else if take 4 s = ''true'' then Inr (PBool True, drop 4 s)
          else if take 5 s = ''false'' then Inr (PBool False, drop 5 s)
          else if take 3 s = ''NaN'' then Inr (PFloat ''NaN'', drop 3 s)
          else if take 8 s = ''Infinity'' then Inr (PFloat ''Infinity'', drop 8 s)
          else if take 9 s = ''-Infinity'' then Inr (PFloat ''-Infinity'', drop 9 s)
          else match_number s) = Inr (v, r)"
        using other Cons by (subst (asm) scan_once.simps) simp
      then have "r = drop 4 s \<or> r = drop 5 s \<or> r = drop 3 s \<or> r = drop 8 s \<or> r = drop 9 s
          \<or> match_number s = Inr (v, r)"
        unfolding Cons list.case by (auto split: if_splits)
      moreover have "length (drop (Suc k) s) < length s" for k using Cons by simp
      ultimately show ?thesis using match_number_shorter [of s v r]
        by (auto simp: numeral_eq_Suc)
    qed
  qed
next
  case (2 acc s)
  note unf = "2.prems" [unfolded parse_array.simps [of acc s]]
  from unf obtain v' r' where s: "scan_once s = Inr (v', r')" and lt: "length r' < length s"
    by (auto split: sum.splits if_splits)
  show ?case
  proof (cases "skip_ws r'")
    case Nil
    with unf s lt show ?thesis by simp
  next
    case (Cons c r'')
    show ?thesis
    proof (cases "c = CHR '']''")
      case True
      with unf s lt Cons have "r = r''" by simp
      with skip_ws_Cons_length [OF Cons] lt show ?thesis by simp
    next
      case False
      with unf s lt Cons have c: "c = CHR '',''"
        and p: "parse_array (acc @ [v']) (skip_ws r'') = Inr (v, r)"
        by (auto split: if_splits)
      from "2.IH"(2) [OF s refl lt Cons False c p]
      have "length r < length (skip_ws r'')" .
      with skip_ws_length [of r''] skip_ws_Cons_length [OF Cons] lt show ?thesis by simp
    qed
  qed
next
  case (3 acc s)
  note unf = "3.prems" [unfolded parse_object.simps [of acc s]]
  from unf obtain q s1 where s: "s = q # s1" and q: "q = dquote"
    by (cases s) (auto split: if_splits)
  from unf s q obtain key r1 where k: "scanstring s1 = Inr (key, r1)"
    and lt1: "length r1 < length s1"
    by (auto split: sum.splits if_splits)
  from unf s q k lt1 obtain c r2 where sk1: "skip_ws r1 = c # r2" and c: "c = CHR '':''"
    by (cases "skip_ws r1") (auto split: if_splits)
  from unf s q k lt1 sk1 c obtain v' r3 where sc: "scan_once (skip_ws r2) = Inr (v', r3)"
    and lt3: "length r3 < length s"
    by (auto split: sum.splits if_splits)
  show ?case
  proof (cases "skip_ws r3")
    case Nil
    with unf s q k lt1 sk1 c sc lt3 show ?thesis by simp
  next
    case (Cons d r4)
    show ?thesis
    proof (cases "d = CHR ''}''")
      case True
      with unf s q k lt1 sk1 c sc lt3 Cons have "r = r4" by simp
      with skip_ws_Cons_length [OF Cons] lt3 show ?thesis by simp
    next
      case False
      with unf s q k lt1 sk1 c sc lt3 Cons have d: "d = CHR '',''"
        and p: "parse_object (dict_set acc key v') (skip_ws r4) = Inr (v, r)"
        by (auto split: if_splits)
      from "3.IH"(2) [OF s q k refl lt1 sk1 c sc refl lt3 Cons False d p]
      have "length r < length (skip_ws r4)" .
      with skip_ws_length [of r4] skip_ws_Cons_length [OF Cons] lt3 show ?thesis by simp
    qed
  qed
qed

section \<open>Truth value and iteration of a Python value\<close>

text \<open>\<^verbatim>\<open>float(lexeme) == 0.0\<close>: the literal's value rounds to zero exactly when it is at
  most \<open>2 ^ -1075\<close>, half of the smallest positive double.\<close>

definition signed_digits :: "string \<Rightarrow> int" where
  "signed_digits s =
     (case s of
        [] \<Rightarrow> 0
      | c # t \<Rightarrow> if c = CHR ''-'' then - int (nat_of_digits 10 t)
                 else if c = CHR ''+'' then int (nat_of_digits 10 t)
                 else int (nat_of_digits 10 s))"

definition float_is_zero :: "string \<Rightarrow> bool" where
  "float_is_zero lexeme =
     (let body = (case lexeme of [] \<Rightarrow> [] | c # t \<Rightarrow> if c = CHR ''-'' then t else lexeme);
          integer = takeWhile is_digit body;
          (frac, r) = match_fraction (dropWhile is_digit body);
          (ex, r') = match_exponent r;
          m = nat_of_digits 10 (integer @ drop 1 frac);
          e10 = signed_digits (drop 1 ex) - int (length (drop 1 frac))
      in integer \<noteq> [] \<and> (m = 0 \<or> (e10 < 0 \<and> m * 2 ^ 1075 \<le> 10 ^ nat (- e10))))"

fun py_truthy :: "pyval \<Rightarrow> bool" where
  "py_truthy PNone = False"
| "py_truthy (PBool b) = b"
| "py_truthy (PInt i) = (i \<noteq> 0)"
| "py_truthy (PFloat lexeme) = (\<not> float_is_zero lexeme)"
| "py_truthy (PStr s) = (s \<noteq> [])"
| "py_truthy (PUuid u) = True"
| "py_truthy (PDatetime d) = True"
| "py_truthy (PStatus s) = True"
| "py_truthy (PList xs) = (xs \<noteq> [])"
| "py_truthy (PDict kvs) = (kvs \<noteq> [])"

text \<open>\<^verbatim>\<open>for t in v\<close>: a list gives its elements, a dict its keys, text its characters;
  anything else is not iterable.\<close>

fun py_iter :: "pyval \<Rightarrow> exn + pyval list" where
  "py_iter (PList xs) = Inr xs"
| "py_iter (PDict kvs) = Inr (map (\<lambda>kv. PStr (fst kv)) kvs)"
| "py_iter (PStr s) = Inr (map (\<lambda>c. PStr [c]) s)"
| "py_iter (PStatus st) = Inr (map (\<lambda>c. PStr [c]) (status_value st))"
| "py_iter _ = Inl TypeError"

definition py_index :: "'a list \<Rightarrow> nat \<Rightarrow> exn + 'a" where
  "py_index xs i = (if i < length xs then Inr (xs ! i) else Inl IndexError)"

section \<open>The response model (app/data/DTO/template\_dto.py)\<close>

text \<open>\<^verbatim>\<open>TemplateResponse.model_dump()\<close>: the dict of the six fields.\<close>

definition model_dump :: "TemplateResponse \<Rightarrow> pyval" where
  "model_dump t =
     PDict [(''id'', PUuid (TemplateResponse.id' t)),
            (''title'', PStr (TemplateResponse.title t)),
            (''body'', (case TemplateResponse.body t of None \<Rightarrow> PNone | Some b \<Rightarrow> PStr b)),
            (''status'', PStatus (TemplateResponse.status t)),
            (''created_at'', PDatetime (TemplateResponse.created_at t)),
            (''updated_at'', PDatetime (TemplateResponse.updated_at t))]"

text \<open>\<^verbatim>\<open>TemplateResponse.model_validate(t)\<close> for a value read from the cache. Every field is
  required. A UUID and a datetime are accepted as such or as the text \<^verbatim>\<open>str\<close> gives them;
  the further spellings the validation library accepts are not modelled.\<close>

definition validate_uuid :: "pyval option \<Rightarrow> uuid option" where
  "validate_uuid v = (case v of Some (PUuid u) \<Rightarrow> Some u | Some (PStr s) \<Rightarrow> uuid_of_str s | _ \<Rightarrow> None)"

definition validate_str :: "pyval option \<Rightarrow> string option" where
  "validate_str v = (case v of Some (PStr s) \<Rightarrow> Some s | _ \<Rightarrow> None)"

definition validate_optional_str :: "pyval option \<Rightarrow> string option option" where
  "validate_optional_str v =
     (case v of Some PNone \<Rightarrow> Some None | Some (PStr s) \<Rightarrow> Some (Some s) | _ \<Rightarrow> None)"

definition validate_status :: "pyval option \<Rightarrow> TemplateStatus option" where
  "validate_status v =
     (case v of
        Some (PStatus s) \<Rightarrow> Some s
      | Some (PStr s) \<Rightarrow> if s = ''DRAFT'' then Some DRAFT
                         else if s = ''PUBLISHED'' then Some PUBLISHED else None
      | _ \<Rightarrow> None)"

definition validate_datetime :: "pyval option \<Rightarrow> datetime option" where
  "validate_datetime v =
     (case v of Some (PDatetime d) \<Rightarrow> Some d | Some (PStr s) \<Rightarrow> datetime_of_str s | _ \<Rightarrow> None)"

definition model_validate :: "pyval \<Rightarrow> exn + TemplateResponse" where
  "model_validate t =
     (case t of
        PDict d \<Rightarrow>
          (case (validate_uuid (map_of d ''id''), validate_str (map_of d ''title''),
                 validate_optional_str (map_of d ''body''), validate_status (map_of d ''status''),
                 validate_datetime (map_of d ''created_at''),
                 validate_datetime (map_of d ''updated_at'')) of
             (Some i, Some t, Some b, Some s, Some c, Some u) \<Rightarrow>
               Inr \<lparr>TemplateResponse.id' = i, title = t, body = b, status = s,
                    created_at = c, updated_at = u\<rparr>
           | _ \<Rightarrow> Inl ValidationError)
      | _ \<Rightarrow> Inl ValidationError)"

fun validate_each :: "pyval list \<Rightarrow> exn + TemplateResponse list" where
  "validate_each [] = Inr []"
| "validate_each (t # ts) =
     (case model_validate t of
        Inl x \<Rightarrow> Inl x
      | Inr r \<Rightarrow> (case validate_each ts of Inl x \<Rightarrow> Inl x | Inr rs \<Rightarrow> Inr (r # rs)))"

section \<open>The world: the store, the cache server and what a call reads from outside\<close>

text \<open>
  The store is the table \<^verbatim>\<open>templateitem\<close>, its rows in the order the store returns them
  (the queries have no \<^verbatim>\<open>ORDER BY\<close>). The cache server maps a key to a value and the time
  at which the entry expires. \<open>env\<close> collects what one call of a service method reads from
  outside the program: the value \<^verbatim>\<open>uuid4()\<close> returns, the first and the second reading of
  \<^verbatim>\<open>datetime.utcnow()\<close>, the cache server's clock in seconds, and whether a call of the
  cache client or a session of the store raises.
\<close>

record world =
  table :: "TemplateItem list"
  redis :: "string \<rightharpoonup> (string \<times> nat)"

record env =
  uuid4 :: uuid
  utcnow_1 :: datetime
  utcnow_2 :: datetime
  redis_now :: nat
  redis_get_raises :: bool
  redis_set_raises :: bool
  redis_delete_raises :: bool
  db_raises :: bool

subsection \<open>The cache client\<close>

definition redis_get :: "env \<Rightarrow> (string \<rightharpoonup> (string \<times> nat)) \<Rightarrow> string \<Rightarrow> exn + string option" where
  "redis_get e r key =
     (if redis_get_raises e then Inl RedisError
      else Inr (case r key of
                  None \<Rightarrow> None
                | Some (v, expires) \<Rightarrow> if redis_now e < expires then Some v else None))"

definition redis_set ::
  "env \<Rightarrow> (string \<rightharpoonup> (string \<times> nat)) \<Rightarrow> string \<Rightarrow> string \<Rightarrow> int \<Rightarrow> exn + (string \<rightharpoonup> (string \<times> nat))" where
  "redis_set e r key v ex =
     (if redis_set_raises e \<or> ex \<le> 0 then Inl RedisError
      else Inr (r(key \<mapsto> (v, redis_now e + nat ex))))"

definition redis_delete ::
  "env \<Rightarrow> (string \<rightharpoonup> (string \<times> nat)) \<Rightarrow> string \<Rightarrow> exn + (string \<rightharpoonup> (string \<times> nat))" where
  "redis_delete e r key =
     (if redis_delete_raises e then Inl RedisError else Inr (r(key := None)))"

section \<open>Entity repository (app/data/repositories/base\_repository.py)\<close>

definition create :: "env \<Rightarrow> TemplateItem list \<Rightarrow> TemplateItem \<Rightarrow> exn + (TemplateItem \<times> TemplateItem list)" where
  "create e tbl entity =
     (if db_raises e then Inl StoreFailure
      else if TemplateItem.id' entity \<in> set (map TemplateItem.id' tbl) then Inl IntegrityError
      else Inr (entity, tbl @ [entity]))"

definition get_by_id :: "env \<Rightarrow> TemplateItem list \<Rightarrow> uuid \<Rightarrow> exn + TemplateItem option" where
  "get_by_id e tbl entity_id =
     (if db_raises e then Inl StoreFailure
      else Inr (find (\<lambda>r. TemplateItem.id' r = entity_id) tbl))"

text \<open>\<^verbatim>\<open>get_all(limit=100, offset=0)\<close> runs \<^verbatim>\<open>select(...).limit(limit).offset(offset)\<close>:
  an argument left out takes its default, and the limit and the offset go to the store as
  they are. A negative one is refused by the store.\<close>

definition get_all ::
  "env \<Rightarrow> TemplateItem list \<Rightarrow> int option \<Rightarrow> int option \<Rightarrow> exn + TemplateItem list" where
  "get_all e tbl limit_arg offset_arg =
     (let lim = (case limit_arg of None \<Rightarrow> 100 | Some l \<Rightarrow> l);
          off = (case offset_arg of None \<Rightarrow> 0 | Some n \<Rightarrow> n)
      in if db_raises e \<or> lim < 0 \<or> off < 0 then Inl StoreFailure
         else Inr (take (nat lim) (drop (nat off) tbl)))"

text \<open>\<^verbatim>\<open>setattr(existing, field, value)\<close> behind \<^verbatim>\<open>hasattr(existing, field)\<close>: a name that is
  no column is skipped; \<open>None\<close> stands for a value the column cannot hold, which the commit
  refuses.\<close>

definition setattr_item :: "TemplateItem \<Rightarrow> string \<Rightarrow> pyval \<Rightarrow> TemplateItem option" where
  "setattr_item x field v =
     (if field = ''id'' then
        (case v of PUuid u \<Rightarrow> Some (x\<lparr>TemplateItem.id' := u\<rparr>) | _ \<Rightarrow> None)
      else if field = ''title'' then
        (case v of PStr s \<Rightarrow> Some (x\<lparr>TemplateItem.title := s\<rparr>) | _ \<Rightarrow> None)
      else if field = ''body'' then
        (case v of PStr s \<Rightarrow> Some (x\<lparr>TemplateItem.body := Some s\<rparr>)
                 | PNone \<Rightarrow> Some (x\<lparr>TemplateItem.body := None\<rparr>)
                 | _ \<Rightarrow> None)
      else if field = ''status'' then
        (case v of PStatus s \<Rightarrow> Some (x\<lparr>TemplateItem.status := s\<rparr>) | _ \<Rightarrow> None)
      else if field = ''created_at'' then
        (case v of PDatetime d \<Rightarrow> Some (x\<lparr>TemplateItem.created_at := d\<rparr>) | _ \<Rightarrow> None)
      else if field = ''updated_at'' then
        (case v of PDatetime d \<Rightarrow> Some (x\<lparr>TemplateItem.updated_at := d\<rparr>) | _ \<Rightarrow> None)
      else Some x)"

fun apply_update_data :: "(string \<times> pyval) list \<Rightarrow> TemplateItem \<Rightarrow> TemplateItem option" where
  "apply_update_data [] x = Some x"
| "apply_update_data ((field, v) # rest) x =
     (case setattr_item x field v of None \<Rightarrow> None | Some x' \<Rightarrow> apply_update_data rest x')"

definition update_by_id ::
  "env \<Rightarrow> TemplateItem list \<Rightarrow> uuid \<Rightarrow> (string \<times> pyval) list \<Rightarrow> exn + (TemplateItem \<times> TemplateItem list)" where
  "update_by_id e tbl entity_id update_data =
     (if db_raises e then Inl StoreFailure
      else case find (\<lambda>r. TemplateItem.id' r = entity_id) tbl of
          None \<Rightarrow> Inl ValueError
        | Some existing \<Rightarrow>
            (case apply_update_data update_data existing of
               None \<Rightarrow> Inl StoreFailure
             | Some changed \<Rightarrow>
                 if TemplateItem.id' changed \<noteq> entity_id
                    \<and> TemplateItem.id' changed \<in> set (map TemplateItem.id' tbl)
                 then Inl IntegrityError
                 else Inr (changed,
                           map (\<lambda>r. if TemplateItem.id' r = entity_id then changed else r) tbl)))"

definition delete_by_id :: "env \<Rightarrow> TemplateItem list \<Rightarrow> uuid \<Rightarrow> exn + (bool \<times> TemplateItem list)" where
  "delete_by_id e tbl entity_id =
     (if db_raises e then Inl StoreFailure
      else let rowcount = length (filter (\<lambda>r. TemplateItem.id' r = entity_id) tbl)
           in Inr (rowcount > 0, filter (\<lambda>r. TemplateItem.id' r \<noteq> entity_id) tbl))"

section \<open>Cache service (app/services/cache\_service.py)\<close>

text \<open>The fallback of \<open>get_templates_cache\<close> for text that is not JSON: segments between
  \<^verbatim>\<open>||\<close>, each split at \<^verbatim>\<open>::\<close> at most three times.\<close>

definition legacy_item :: "string \<Rightarrow> exn + pyval" where
  "legacy_item s =
     (let parts = py_split_max ''::'' 3 s in
      case py_index parts 0 of Inl x \<Rightarrow> Inl x | Inr p0 \<Rightarrow>
      (case py_int p0 of None \<Rightarrow> Inl ValueError | Some n \<Rightarrow>
      (case py_index parts 1 of Inl x \<Rightarrow> Inl x | Inr p1 \<Rightarrow>
      (case py_index parts 2 of Inl x \<Rightarrow> Inl x | Inr p2 \<Rightarrow>
      (case py_index parts 3 of Inl x \<Rightarrow> Inl x | Inr p3 \<Rightarrow>
         Inr (PDict [(''id'', PInt n), (''title'', PStr p1), (''status'', PStr p2),
                     (''created_at'', PStr p3)]))))))"

fun legacy_items :: "pyval list \<Rightarrow> string list \<Rightarrow> exn + pyval list" where
  "legacy_items items [] = Inr items"
| "legacy_items items (s # rest) =
     (if s = [] then legacy_items items rest
      else case legacy_item s of
             Inl x \<Rightarrow> Inl x
           | Inr item \<Rightarrow> legacy_items (items @ [item]) rest)"

definition get_templates_cache :: "env \<Rightarrow> (string \<rightharpoonup> (string \<times> nat)) \<Rightarrow> string \<Rightarrow> pyval" where
  "get_templates_cache e r key =
     (case redis_get e r key of
        Inl _ \<Rightarrow> PNone
      | Inr None \<Rightarrow> PNone
      | Inr (Some cached) \<Rightarrow>
          if cached = [] then PNone
          else (case json_loads cached of
                  Inr v \<Rightarrow> v
                | Inl JSONDecodeError \<Rightarrow>
                    (case legacy_items [] (py_split ''||'' cached) of
                       Inl _ \<Rightarrow> PNone
                     | Inr items \<Rightarrow> PList items)
                | Inl _ \<Rightarrow> PNone))"

definition set_templates_cache ::
  "env \<Rightarrow> (string \<rightharpoonup> (string \<times> nat)) \<Rightarrow> string \<Rightarrow> pyval list \<Rightarrow> int \<Rightarrow> (string \<rightharpoonup> (string \<times> nat))" where
  "set_templates_cache e r key templates' ttl =
     (case redis_set e r key (json_dumps (PList templates')) ttl of
        Inl _ \<Rightarrow> r
      | Inr r' \<Rightarrow> r')"

definition invalidate_cache ::
  "env \<Rightarrow> (string \<rightharpoonup> (string \<times> nat)) \<Rightarrow> string \<Rightarrow> (string \<rightharpoonup> (string \<times> nat))" where
  "invalidate_cache e r key = (case redis_delete e r key of Inl _ \<Rightarrow> r | Inr r' \<Rightarrow> r')"

section \<open>Template service (app/services/template\_service.py)\<close>

text \<open>\<^verbatim>\<open>TemplateResponse.model_validate(entity)\<close> with \<^verbatim>\<open>from_attributes\<close>: a copy, field by
  field.\<close>

definition model_validate_item :: "TemplateItem \<Rightarrow> TemplateResponse" where
  "model_validate_item x =
     \<lparr>TemplateResponse.id' = TemplateItem.id' x,
      TemplateResponse.title = TemplateItem.title x,
      TemplateResponse.body = TemplateItem.body x,
      TemplateResponse.status = TemplateItem.status x,
      TemplateResponse.created_at = TemplateItem.created_at x,
      TemplateResponse.updated_at = TemplateItem.updated_at x\<rparr>"

definition get_all_templates ::
  "env \<Rightarrow> world \<Rightarrow> bool \<Rightarrow> int \<Rightarrow> int \<Rightarrow> (exn + TemplateListResponse) \<times> world" where
  "get_all_templates e w use_cache lim off =
     (let cached_templates =
            (if use_cache then get_templates_cache e (redis w) ''test:template'' else PNone)
      in if use_cache \<and> py_truthy cached_templates then
           (case py_iter cached_templates of
              Inl x \<Rightarrow> (Inl x, w)
            | Inr ts \<Rightarrow>
                (case validate_each ts of
                   Inl x \<Rightarrow> (Inl x, w)
                 | Inr templates' \<Rightarrow>
                     (Inr \<lparr>source = ''redis'', templates = templates',
                           total' = Some (int (length templates')),
                           limit = Some lim, offset = Some off\<rparr>, w)))
         else
           (case get_all e (table w) (Some lim) (Some off) of
              Inl x \<Rightarrow> (Inl x, w)
            | Inr template_entities \<Rightarrow>
                (let templates' = map model_validate_item template_entities
                 in (Inr \<lparr>source = ''db'', templates = templates',
                          total' = Some (int (length templates')),
                          limit = Some lim, offset = Some off\<rparr>,
                     w\<lparr>redis :=
                         (if use_cache
                          then set_templates_cache e (redis w) ''test:template''
                                 (map model_dump templates') 30
                          else redis w)\<rparr>))))"

definition get_template_by_id :: "env \<Rightarrow> world \<Rightarrow> uuid \<Rightarrow> exn + TemplateResponse option" where
  "get_template_by_id e w template_id =
     (case get_by_id e (table w) template_id of
        Inl x \<Rightarrow> Inl x
      | Inr t \<Rightarrow> Inr (map_option model_validate_item t))"

text \<open>The entity built from the request: \<^verbatim>\<open>id\<close>, \<^verbatim>\<open>created_at\<close> and \<^verbatim>\<open>updated_at\<close> come from
  their default factories, called in the order of the fields, so the two timestamps are two
  readings of the clock.\<close>

definition new_entity :: "env \<Rightarrow> TemplateCreateRequest \<Rightarrow> TemplateItem" where
  "new_entity e create_request =
     \<lparr>TemplateItem.id' = uuid4 e,
      TemplateItem.title = TemplateCreateRequest.title create_request,
      TemplateItem.body = TemplateCreateRequest.body create_request,
      TemplateItem.status = TemplateCreateRequest.status create_request,
      TemplateItem.created_at = utcnow_1 e,
      TemplateItem.updated_at = utcnow_2 e\<rparr>"

definition create_template ::
  "env \<Rightarrow> world \<Rightarrow> TemplateCreateRequest \<Rightarrow> (exn + TemplateCreateResponse) \<times> world" where
  "create_template e w create_request =
     (case create e (table w) (new_entity e create_request) of
        Inl x \<Rightarrow> (Inl x, w)
      | Inr (created_template, tbl') \<Rightarrow>
          (Inr \<lparr>message = ''Template created successfully'',
                template = model_validate_item created_template\<rparr>,
           \<lparr>table = tbl', redis = invalidate_cache e (redis w) ''test:template''\<rparr>))"

text \<open>\<^verbatim>\<open>update_request.model_dump(exclude_none=True)\<close>: the fields that are set, in the order
  of the class.\<close>

definition model_dump_exclude_none :: "TemplateUpdateRequest \<Rightarrow> (string \<times> pyval) list" where
  "model_dump_exclude_none update_request =
     (case TemplateUpdateRequest.title update_request of
        None \<Rightarrow> [] | Some t \<Rightarrow> [(''title'', PStr t)])
     @ (case TemplateUpdateRequest.body update_request of
        None \<Rightarrow> [] | Some b \<Rightarrow> [(''body'', PStr b)])
     @ (case TemplateUpdateRequest.status update_request of
        None \<Rightarrow> [] | Some s \<Rightarrow> [(''status'', PStatus s)])"

definition update_template ::
  "env \<Rightarrow> world \<Rightarrow> uuid \<Rightarrow> TemplateUpdateRequest \<Rightarrow> (exn + TemplateResponse option) \<times> world" where
  "update_template e w template_id update_request =
     (let update_data = model_dump_exclude_none update_request in
      if update_data = [] then (get_template_by_id e w template_id, w)
      else
        (case update_by_id e (table w) template_id
                (update_data @ [(''updated_at'', PDatetime (utcnow_1 e))]) of
           Inl ValueError \<Rightarrow> (Inr None, w)
         | Inl x \<Rightarrow> (Inl x, w)
         | Inr (updated_template, tbl') \<Rightarrow>
             (Inr (Some (model_validate_item updated_template)),
              \<lparr>table = tbl', redis = invalidate_cache e (redis w) ''test:template''\<rparr>)))"

definition delete_template :: "env \<Rightarrow> world \<Rightarrow> uuid \<Rightarrow> (exn + bool) \<times> world" where
  "delete_template e w template_id =
     (case delete_by_id e (table w) template_id of
        Inl x \<Rightarrow> (Inl x, w)
      | Inr (result, tbl') \<Rightarrow>
          (Inr result,
           \<lparr>table = tbl',
            redis = (if result then invalidate_cache e (redis w) ''test:template''
                     else redis w)\<rparr>))"

section \<open>Router (app/api/routers/template\_router.py)\<close>

datatype http_error = HTTP_422 | HTTP_500

definition get_templates ::
  "env \<Rightarrow> world \<Rightarrow> int option \<Rightarrow> int option \<Rightarrow> bool option
     \<Rightarrow> (http_error + TemplateListResponse) \<times> world" where
  "get_templates e w limit_query offset_query use_cache_query =
     (let lim = (case limit_query of None \<Rightarrow> 100 | Some l \<Rightarrow> l);
          off = (case offset_query of None \<Rightarrow> 0 | Some n \<Rightarrow> n);
          use_cache = (case use_cache_query of None \<Rightarrow> True | Some b \<Rightarrow> b)
      in if lim < 1 \<or> 500 < lim \<or> off < 0 then (Inl HTTP_422, w)
         else (case get_all_templates e w use_cache lim off of
                 (Inl x, w') \<Rightarrow> (Inl HTTP_500, w')
               | (Inr result, w') \<Rightarrow> (Inr result, w')))"

section \<open>Runs of listing reads\<close>

text \<open>The world after a sequence of listing reads, each with its own environment and
  arguments; and the cache entries that hold no item.\<close>

fun listing_reads :: "world \<Rightarrow> (env \<times> bool \<times> int \<times> int) list \<Rightarrow> world" where
  "listing_reads w [] = w"
| "listing_reads w ((e, use_cache, lim, off) # rest) =
     listing_reads (snd (get_all_templates e w use_cache lim off)) rest"

definition caches_no_items :: "world \<Rightarrow> bool" where
  "caches_no_items w =
     (case redis w ''test:template'' of None \<Rightarrow> True | Some (cached, expires) \<Rightarrow> cached = ''[]'')"

section \<open>The legacy format, in the words of claim C10\<close>

text \<open>A segment is well formed when its first field is an integer for \<^verbatim>\<open>int\<close> and it has at
  least four fields; \<open>legacy_dict\<close> is the item read from such a segment.\<close>

definition legacy_segment_ok :: "string \<Rightarrow> bool" where
  "legacy_segment_ok s =
     (py_int (hd (py_split ''::'' s)) \<noteq> None \<and> 4 \<le> length (py_split ''::'' s))"

definition legacy_dict :: "string \<Rightarrow> pyval" where
  "legacy_dict s =
     (let parts = py_split_max ''::'' 3 s in
      PDict [(''id'', PInt (case py_int (parts ! 0) of None \<Rightarrow> 0 | Some n \<Rightarrow> n)),
             (''title'', PStr (parts ! 1)), (''status'', PStr (parts ! 2)),
             (''created_at'', PStr (parts ! 3))])"

section \<open>What json.loads reads back from what json.dumps wrote\<close>






section \<open>Example data\<close>

definition dt0 :: datetime where
  "dt0 = \<lparr>year = 2023, month = 1, day = 1, hour = 12, minute = 0, second = 0, microsecond = 0\<rparr>"

definition env0 :: env where
  "env0 = \<lparr>uuid4 = 0x123e4567e89b12d3a456426614174000, utcnow_1 = dt0\<lparr>microsecond := 7\<rparr>,
      utcnow_2 = dt0\<lparr>microsecond := 9\<rparr>, redis_now = 100, redis_get_raises = False,
      redis_set_raises = False, redis_delete_raises = False, db_raises = False\<rparr>"

definition item0 :: TemplateItem where
  "item0 = \<lparr>TemplateItem.id' = 1, title = ''X'', body = None, status = DRAFT,
      created_at = dt0, updated_at = dt0\<rparr>"

definition world0 :: world where
  "world0 = \<lparr>table = [item0], redis = [''test:template'' \<mapsto> (''[]'', 120)]\<rparr>"

definition req0 :: TemplateCreateRequest where
  "req0 = \<lparr>TemplateCreateRequest.title = ''A'', body = Some ''b'', status = PUBLISHED\<rparr>"

definition no_fields :: TemplateUpdateRequest where
  "no_fields = \<lparr>TemplateUpdateRequest.title = None, body = None, status = None\<rparr>"

definition publish :: TemplateUpdateRequest where
  "publish = \<lparr>TemplateUpdateRequest.title = None, body = None, status = Some PUBLISHED\<rparr>"

definition big_table :: "TemplateItem list" where
  "big_table = map (\<lambda>i. item0\<lparr>TemplateItem.id' := of_nat i\<rparr>) [0..<501]"

definition cached_item0 :: string where
  "cached_item0 = json_dumps (PList [model_dump (model_validate_item item0)])"


definition world_empty :: world where
  "world_empty = \<lparr>table = [], redis = [''test:template'' \<mapsto> (''[]'', 120)]\<rparr>"

definition legacy_text :: string where
  "legacy_text = ''1::X::DRAFT::2023-01-01||2::Y::PUBLISHED::2023-01-02||''"

definition legacy_uuid_text :: string where
  "legacy_uuid_text = ''123e4567-e89b-12d3-a456-426614174000::X::DRAFT::2023-01-01''"


definition world_fresh :: world where
  "world_fresh = \<lparr>table = [item0], redis = Map.empty\<rparr>"

definition world_stale :: world where
  "world_stale = \<lparr>table = [], redis = [''test:template'' \<mapsto> (cached_item0, 130)]\<rparr>"


definition env_delete_fails :: env where
  "env_delete_fails = env0\<lparr>redis_delete_raises := True\<rparr>"

lemmas example_defs = env0_def world0_def req0_def item0_def dt0_def no_fields_def publish_def

section \<open>Mutations: what is written\<close>

text \<open>What a partial update makes of a row: the fields the request sets are replaced,
  \<^verbatim>\<open>updated_at\<close> becomes the clock's reading, everything else stays.\<close>

definition patched :: "env \<Rightarrow> TemplateUpdateRequest \<Rightarrow> TemplateItem \<Rightarrow> TemplateItem" where
  "patched e req old =
     old\<lparr>TemplateItem.title :=
           (case TemplateUpdateRequest.title req of None \<Rightarrow> TemplateItem.title old | Some t \<Rightarrow> t),
         TemplateItem.body :=
           (case TemplateUpdateRequest.body req of None \<Rightarrow> TemplateItem.body old | Some b \<Rightarrow> Some b),
         TemplateItem.status :=
           (case TemplateUpdateRequest.status req of None \<Rightarrow> TemplateItem.status old | Some s \<Rightarrow> s),
         TemplateItem.updated_at := utcnow_1 e\<rparr>"

lemma find_replace:
  "TemplateItem.id' new = k \<Longrightarrow> find (\<lambda>r. TemplateItem.id' r = k) tbl = Some old \<Longrightarrow>
   find (\<lambda>r. TemplateItem.id' r = k) (map (\<lambda>r. if TemplateItem.id' r = k then new else r) tbl)
     = Some new"
  by (induction tbl) (auto split: if_splits)

lemma find_Some_id:
  "find (\<lambda>r. TemplateItem.id' r = k) tbl = Some old \<Longrightarrow> TemplateItem.id' old = k"
  by (induction tbl) (auto split: if_splits)

lemma apply_patch:
  "apply_update_data (model_dump_exclude_none req @ [(''updated_at'', PDatetime (utcnow_1 e))]) old
     = Some (patched e req old)"
  by (cases "TemplateUpdateRequest.title req"; cases "TemplateUpdateRequest.body req";
      cases "TemplateUpdateRequest.status req")
     (simp_all add: model_dump_exclude_none_def setattr_item_def patched_def)

lemma dump_empty_iff:
  "model_dump_exclude_none req = [] \<longleftrightarrow>
     TemplateUpdateRequest.title req = None \<and> TemplateUpdateRequest.body req = None
     \<and> TemplateUpdateRequest.status req = None"
  by (auto simp: model_dump_exclude_none_def split: option.splits)

lemma update_template_found:
  assumes "find (\<lambda>r. TemplateItem.id' r = k) (table w) = Some old" "\<not> db_raises e"
    "model_dump_exclude_none req \<noteq> []"
  shows "update_template e w k req =
     (Inr (Some (model_validate_item (patched e req old))),
      \<lparr>table = map (\<lambda>r. if TemplateItem.id' r = k then patched e req old else r) (table w),
       redis = invalidate_cache e (redis w) ''test:template''\<rparr>)"
proof -
  have "TemplateItem.id' (patched e req old) = k"
    using find_Some_id [OF assms(1)] by (simp add: patched_def)
  then show ?thesis using assms
    by (simp add: update_template_def update_by_id_def apply_patch)
qed

lemma update_template_no_fields:
  assumes "model_dump_exclude_none req = []"
  shows "update_template e w k req =
     ((if db_raises e then Inl StoreFailure
       else Inr (map_option model_validate_item (find (\<lambda>r. TemplateItem.id' r = k) (table w)))), w)"
  using assms by (simp add: update_template_def get_template_by_id_def get_by_id_def)

section \<open>Claims about mutations\<close>


subsection \<open>Claim C5\<close>

text \<open>
  Claim C5, as amended. Whenever \<open>create_template\<close> returns a record, its title, body and
  status are the request's, its id is the value \<^verbatim>\<open>uuid4()\<close> produced and differs from
  every id already in the table (a colliding id makes the store refuse the insert), and
  \<^verbatim>\<open>created_at\<close> is the first, \<^verbatim>\<open>updated_at\<close> the second reading of the clock: the two
  are equal exactly when the readings coincide. With the store up and an id that is not in
  the table, a record is returned.
\<close>

theorem create_template_record:
  "(create_template e w req = (Inr resp, w') \<longrightarrow>
      TemplateResponse.title (template resp) = TemplateCreateRequest.title req
    \<and> TemplateResponse.body (template resp) = TemplateCreateRequest.body req
    \<and> TemplateResponse.status (template resp) = TemplateCreateRequest.status req
    \<and> TemplateResponse.id' (template resp) = uuid4 e
    \<and> TemplateResponse.id' (template resp) \<notin> TemplateItem.id' ` set (table w)
    \<and> TemplateResponse.created_at (template resp) = utcnow_1 e
    \<and> TemplateResponse.updated_at (template resp) = utcnow_2 e
    \<and> (TemplateResponse.created_at (template resp) = TemplateResponse.updated_at (template resp)
          \<longleftrightarrow> utcnow_1 e = utcnow_2 e)
    \<and> table w' = table w @ [new_entity e req])
  \<and> (\<not> db_raises e \<and> uuid4 e \<notin> TemplateItem.id' ` set (table w) \<longrightarrow>
        (\<exists>resp w'. create_template e w req = (Inr resp, w')))"
  by (auto simp: create_template_def create_def new_entity_def model_validate_item_def
           split: sum.splits if_splits)

text \<open>The theorem of C5 at a request against a table of one row.\<close>

theorem create_template_record_witness:
  "create_template env0 world0 req0 =
     (Inr \<lparr>message = ''Template created successfully'',
           template = \<lparr>TemplateResponse.id' = 0x123e4567e89b12d3a456426614174000, title = ''A'',
             body = Some ''b'', status = PUBLISHED, created_at = dt0\<lparr>microsecond := 7\<rparr>,
             updated_at = dt0\<lparr>microsecond := 9\<rparr>\<rparr>\<rparr>,
      \<lparr>table = [item0, new_entity env0 req0], redis = Map.empty\<rparr>)
   \<and> uuid4 env0 \<notin> TemplateItem.id' ` set (table world0)
   \<and> \<not> db_raises env0"
proof -
  have fresh: "\<not> db_raises env0 \<and> uuid4 env0 \<notin> TemplateItem.id' ` set (table world0)"
    by (simp add: example_defs)
  with create_template_record [of env0 world0 req0] obtain resp w'
    where run: "create_template env0 world0 req0 = (Inr resp, w')" by blast
  from create_template_record [of env0 world0 req0 resp w'] run
  have "TemplateResponse.title (template resp) = TemplateCreateRequest.title req0" by blast
  with run fresh show ?thesis
    by (simp add: create_template_def create_def new_entity_def model_validate_item_def
        invalidate_cache_def redis_delete_def example_defs)
qed

text \<open>Claim C5 as stated fails: the clock advances by two microseconds between the two
  default factories, and the record comes back with \<^verbatim>\<open>created_at\<close> before \<^verbatim>\<open>updated_at\<close>.\<close>

theorem create_template_two_clock_readings:
  "create_template env0 world0 req0 =
     (Inr \<lparr>message = ''Template created successfully'',
           template = \<lparr>TemplateResponse.id' = 0x123e4567e89b12d3a456426614174000, title = ''A'',
             body = Some ''b'', status = PUBLISHED, created_at = dt0\<lparr>microsecond := 7\<rparr>,
             updated_at = dt0\<lparr>microsecond := 9\<rparr>\<rparr>\<rparr>,
      \<lparr>table = [item0, new_entity env0 req0], redis = Map.empty\<rparr>)
   \<and> dt0\<lparr>microsecond := 7\<rparr> \<noteq> dt0\<lparr>microsecond := 9\<rparr>"
  by (simp add: create_template_def create_def new_entity_def model_validate_item_def
        invalidate_cache_def redis_delete_def example_defs)

subsection \<open>Claim C6\<close>

text \<open>
  Claim C6, as amended. For an existing record and an update request that sets at least one
  of title, body and status, \<open>update_template\<close> stores a record in which every field the
  request leaves out keeps its value, every field it sets has the new value, id and
  \<^verbatim>\<open>created_at\<close> are unchanged, and \<^verbatim>\<open>updated_at\<close> is the clock's reading; it is later
  than before whenever that reading is later than the stored value.
\<close>

theorem update_template_partial:
  assumes "find (\<lambda>r. TemplateItem.id' r = k) (table w) = Some old" "\<not> db_raises e"
    "TemplateUpdateRequest.title req \<noteq> None \<or> TemplateUpdateRequest.body req \<noteq> None
       \<or> TemplateUpdateRequest.status req \<noteq> None"
  shows "\<exists>new w'.
      update_template e w k req = (Inr (Some (model_validate_item new)), w')
    \<and> find (\<lambda>r. TemplateItem.id' r = k) (table w') = Some new
    \<and> (TemplateUpdateRequest.title req = None \<longrightarrow> TemplateItem.title new = TemplateItem.title old)
    \<and> (TemplateUpdateRequest.body req = None \<longrightarrow> TemplateItem.body new = TemplateItem.body old)
    \<and> (TemplateUpdateRequest.status req = None \<longrightarrow> TemplateItem.status new = TemplateItem.status old)
    \<and> (\<forall>t. TemplateUpdateRequest.title req = Some t \<longrightarrow> TemplateItem.title new = t)
    \<and> (\<forall>b. TemplateUpdateRequest.body req = Some b \<longrightarrow> TemplateItem.body new = Some b)
    \<and> (\<forall>s. TemplateUpdateRequest.status req = Some s \<longrightarrow> TemplateItem.status new = s)
    \<and> TemplateItem.id' new = TemplateItem.id' old
    \<and> TemplateItem.created_at new = TemplateItem.created_at old
    \<and> TemplateItem.updated_at new = utcnow_1 e
    \<and> (datetime_lt (TemplateItem.updated_at old) (utcnow_1 e)
         \<longrightarrow> datetime_lt (TemplateItem.updated_at old) (TemplateItem.updated_at new))"
proof -
  have ne: "model_dump_exclude_none req \<noteq> []" using assms(3) by (simp add: dump_empty_iff)
  have idk: "TemplateItem.id' (patched e req old) = k"
    using find_Some_id [OF assms(1)] by (simp add: patched_def)
  have run: "update_template e w k req =
     (Inr (Some (model_validate_item (patched e req old))),
      \<lparr>table = map (\<lambda>r. if TemplateItem.id' r = k then patched e req old else r) (table w),
       redis = invalidate_cache e (redis w) ''test:template''\<rparr>)"
    by (rule update_template_found [OF assms(1,2) ne])
  have stored: "find (\<lambda>r. TemplateItem.id' r = k)
      (map (\<lambda>r. if TemplateItem.id' r = k then patched e req old else r) (table w))
        = Some (patched e req old)"
    by (rule find_replace [OF idk assms(1)])
  show ?thesis
    apply (rule exI [of _ "patched e req old"])
    apply (rule exI)
    apply (rule conjI [OF run])
    using stored by (simp add: patched_def)
qed

text \<open>The theorem of C6 at an update that sets the status only.\<close>

theorem update_template_partial_witness:
  "\<exists>new w'.
      update_template env0 world0 1 publish = (Inr (Some (model_validate_item new)), w')
    \<and> find (\<lambda>r. TemplateItem.id' r = 1) (table w') = Some new
    \<and> TemplateItem.title new = ''X''
    \<and> TemplateItem.body new = None
    \<and> TemplateItem.status new = PUBLISHED
    \<and> TemplateItem.created_at new = dt0
    \<and> TemplateItem.updated_at new = dt0\<lparr>microsecond := 7\<rparr>
    \<and> datetime_lt (TemplateItem.updated_at item0) (TemplateItem.updated_at new)"
proof -
  have h1: "find (\<lambda>r. TemplateItem.id' r = 1) (table world0) = Some item0"
    by (simp add: example_defs)
  have h2: "\<not> db_raises env0" by (simp add: example_defs)
  have h3: "TemplateUpdateRequest.title publish \<noteq> None \<or> TemplateUpdateRequest.body publish \<noteq> None
       \<or> TemplateUpdateRequest.status publish \<noteq> None" by (simp add: example_defs)
  have lt: "datetime_lt (TemplateItem.updated_at item0) (utcnow_1 env0)"
    by (simp add: example_defs datetime_lt_def datetime_fields_def)
  from update_template_partial [OF h1 h2 h3] obtain new w' where
    "update_template env0 world0 1 publish = (Inr (Some (model_validate_item new)), w')"
    "find (\<lambda>r. TemplateItem.id' r = 1) (table w') = Some new"
    "TemplateItem.title new = TemplateItem.title item0"
    "TemplateItem.body new = TemplateItem.body item0"
    "TemplateItem.status new = PUBLISHED"
    "TemplateItem.created_at new = TemplateItem.created_at item0"
    "TemplateItem.updated_at new = utcnow_1 env0"
    by (auto simp: publish_def)
  with lt show ?thesis by (auto simp: example_defs)
qed

text \<open>Claim C6 as stated fails: the request that sets nothing is a subset too and leaves
  \<^verbatim>\<open>updated_at\<close> as it was; and an update made while the clock still reads the stored
  value writes that value again.\<close>

theorem update_template_updated_at_not_increased:
  "update_template env0 world0 1 no_fields = (Inr (Some (model_validate_item item0)), world0)
   \<and> find (\<lambda>r. TemplateItem.id' r = 1) (table world0) = Some item0
   \<and> \<not> datetime_lt (TemplateItem.updated_at item0) (TemplateItem.updated_at item0)
   \<and> update_template (env0\<lparr>utcnow_1 := dt0\<rparr>) world0 1 publish =
       (Inr (Some (model_validate_item (item0\<lparr>TemplateItem.status := PUBLISHED\<rparr>))),
        \<lparr>table = [item0\<lparr>TemplateItem.status := PUBLISHED\<rparr>], redis = Map.empty\<rparr>)
   \<and> \<not> datetime_lt (TemplateItem.updated_at item0)
          (TemplateItem.updated_at (item0\<lparr>TemplateItem.status := PUBLISHED\<rparr>))"
  by (simp add: update_template_def update_by_id_def get_template_by_id_def get_by_id_def
      model_dump_exclude_none_def setattr_item_def invalidate_cache_def redis_delete_def
      datetime_lt_def datetime_fields_def example_defs)

subsection \<open>Claim C9\<close>

text \<open>
  Claim C9. An update request that sets none of title, body and status changes nothing:
  the world after the call is the world before it (table and cache entry alike), and the
  result is the current record, or \<open>None\<close> when the id is not in the table (a store that
  raises is the call's failure).
\<close>

theorem update_template_without_fields:
  assumes "TemplateUpdateRequest.title req = None" "TemplateUpdateRequest.body req = None"
    "TemplateUpdateRequest.status req = None"
  shows "update_template e w k req =
     ((if db_raises e then Inl StoreFailure
       else Inr (map_option model_validate_item (find (\<lambda>r. TemplateItem.id' r = k) (table w)))), w)"
  using assms by (simp add: update_template_no_fields dump_empty_iff)

text \<open>The theorem of C9 at an id that is in the table and at one that is not.\<close>

theorem update_template_without_fields_witness:
  "update_template env0 world0 1 no_fields = (Inr (Some (model_validate_item item0)), world0)
   \<and> update_template env0 world0 2 no_fields = (Inr None, world0)"
  using update_template_without_fields [of no_fields env0 world0 1]
    update_template_without_fields [of no_fields env0 world0 2]
  by (simp add: example_defs)


lemma get_all_templates_from_db:
  assumes "get_all_templates e w uc lim off = (Inr res, w')" "source res = ''db''"
  shows "\<exists>ents. get_all e (table w) (Some lim) (Some off) = Inr ents
           \<and> templates res = map model_validate_item ents"
  using assms
  by (auto simp: get_all_templates_def Let_def split: if_splits sum.splits)

section \<open>Claims about the listing read\<close>

subsection \<open>Claim C4\<close>

text \<open>
  Claim C4, as amended. \<open>get_all\<close> has the defaults limit 100 and offset 0, and it hands a
  limit the caller supplies to the store as it is, neither bounded nor clamped: for a limit
  and an offset that are not negative it returns the rows from \<open>offset\<close> on, at most
  \<open>limit\<close> of them. The range 1..500 belongs to the route \<open>get_templates\<close>, whose
  validation of the query refuses a limit outside it instead of clamping it, so that a
  listing the route serves from the store has at most 500 elements.
\<close>

theorem get_all_limit_as_given:
  "get_all e tbl None None = get_all e tbl (Some 100) (Some 0)
   \<and> (\<not> db_raises e \<and> 0 \<le> lim \<and> 0 \<le> off \<longrightarrow>
        get_all e tbl (Some lim) (Some off) = Inr (take (nat lim) (drop (nat off) tbl)))
   \<and> ((case limit_query of None \<Rightarrow> 100 | Some l \<Rightarrow> l) < 1
        \<or> 500 < (case limit_query of None \<Rightarrow> 100 | Some l \<Rightarrow> l) \<longrightarrow>
        get_templates e w limit_query offset_query use_cache_query = (Inl HTTP_422, w))
   \<and> (get_templates e w limit_query offset_query use_cache_query = (Inr res, w')
        \<and> source res = ''db'' \<longrightarrow> length (templates res) \<le> 500)"
proof -
  have a: "get_all e tbl None None = get_all e tbl (Some 100) (Some 0)"
    by (simp add: get_all_def)
  have b: "\<not> db_raises e \<and> 0 \<le> lim \<and> 0 \<le> off \<longrightarrow>
        get_all e tbl (Some lim) (Some off) = Inr (take (nat lim) (drop (nat off) tbl))"
    by (simp add: get_all_def)
  have c: "(case limit_query of None \<Rightarrow> 100 | Some l \<Rightarrow> l) < 1
        \<or> 500 < (case limit_query of None \<Rightarrow> 100 | Some l \<Rightarrow> l) \<longrightarrow>
        get_templates e w limit_query offset_query use_cache_query = (Inl HTTP_422, w)"
    by (auto simp: get_templates_def Let_def)
  have d: "length (templates res) \<le> 500"
    if run: "get_templates e w limit_query offset_query use_cache_query = (Inr res, w')"
      and db: "source res = ''db''"
  proof -
    define l where "l = (case limit_query of None \<Rightarrow> 100 | Some l \<Rightarrow> l)"
    define off where "off = (case offset_query of None \<Rightarrow> 0 | Some n \<Rightarrow> n)"
    define uc where "uc = (case use_cache_query of None \<Rightarrow> True | Some b \<Rightarrow> b)"
    from run have rng: "1 \<le> l" "l \<le> 500"
      and inner: "get_all_templates e w uc l off = (Inr res, w')"
      unfolding get_templates_def Let_def l_def [symmetric] off_def [symmetric] uc_def [symmetric]
      by (auto split: if_splits prod.splits sum.splits)
    from get_all_templates_from_db [OF inner db] obtain ents
      where g: "get_all e (table w) (Some l) (Some off) = Inr ents"
        and t: "templates res = map model_validate_item ents" by blast
    from g have "length ents \<le> nat l"
      by (auto simp: get_all_def Let_def split: if_splits)
    with rng t show ?thesis by simp
  qed
  from a b c d show ?thesis by blast
qed

text \<open>The theorem of C4 at a table of one row and at the limits 0, 500 and 501 of the
  route.\<close>

theorem get_all_limit_as_given_witness:
  "get_all env0 [item0] None None = Inr [item0]
   \<and> get_all env0 [item0] (Some 100) (Some 0) = Inr [item0]
   \<and> get_templates env0 world0 (Some 501) None (Some False) = (Inl HTTP_422, world0)
   \<and> get_templates env0 world0 (Some 0) None (Some False) = (Inl HTTP_422, world0)
   \<and> get_templates env0 world0 (Some 500) None (Some False) =
        (Inr \<lparr>source = ''db'', templates = [model_validate_item item0], total' = Some 1,
              limit = Some 500, offset = Some 0\<rparr>, world0)"
proof -
  have run: "get_templates env0 world0 (Some 500) None (Some False) =
        (Inr \<lparr>source = ''db'', templates = [model_validate_item item0], total' = Some 1,
              limit = Some 500, offset = Some 0\<rparr>, world0)"
    by (simp add: get_templates_def get_all_templates_def get_all_def example_defs)
  have "\<not> db_raises env0 \<and> (0::int) \<le> 100 \<and> (0::int) \<le> 0" by (simp add: example_defs)
  with get_all_limit_as_given [of env0 "[item0]" 100 0 "Some 501" world0 None "Some False"]
    get_all_limit_as_given [of env0 "[item0]" 100 0 "Some 0" world0 None "Some False"]
    run
  show ?thesis by simp
qed

text \<open>Claim C4 as stated fails: with the limit 501 \<open>get_all\<close> returns all 501 rows of a
  table, and with the limit 0 none of the rows, where a limit clamped to 1 would return
  one.\<close>

theorem get_all_passes_limit_through:
  "get_all env0 big_table (Some 501) (Some 0) = Inr big_table
   \<and> length big_table = 501
   \<and> get_all env0 [item0] (Some 0) (Some 0) = Inr []"
  by (simp add: get_all_def big_table_def example_defs)

subsection \<open>Claim C2\<close>

lemma cache_calls_absorb:
  "redis_get_raises e \<Longrightarrow> get_templates_cache e r key = PNone"
  "redis_set_raises e \<Longrightarrow> set_templates_cache e r key ts ttl = r"
  "redis_delete_raises e \<Longrightarrow> invalidate_cache e r key = r"
  by (simp_all add: get_templates_cache_def set_templates_cache_def invalidate_cache_def
      redis_get_def redis_set_def redis_delete_def)

lemma redis_get_set_flag:
  "redis_get (e\<lparr>redis_set_raises := b\<rparr>) r key = redis_get e r key"
  by (simp add: redis_get_def split: option.splits)

lemma get_templates_cache_set_flag:
  "get_templates_cache (e\<lparr>redis_set_raises := b\<rparr>) r key = get_templates_cache e r key"
  by (simp add: get_templates_cache_def redis_get_set_flag)

lemma get_all_set_flag:
  "get_all (e\<lparr>redis_set_raises := b\<rparr>) tbl l off = get_all e tbl l off"
  by (simp add: get_all_def)

lemma read_get_raises:
  assumes "redis_get_raises e"
  shows "fst (get_all_templates e w True lim off) = fst (get_all_templates e w False lim off)"
    and "table (snd (get_all_templates e w True lim off)) = table w"
    and "fst (get_all_templates e w True lim off)
          = fst (get_all_templates e (w\<lparr>redis := (redis w)(''test:template'' := None)\<rparr>) True lim off)"
proof -
  have miss: "get_templates_cache e r ''test:template'' = PNone" for r
    using assms by (simp add: get_templates_cache_def redis_get_def)
  show "fst (get_all_templates e w True lim off) = fst (get_all_templates e w False lim off)"
    by (simp add: get_all_templates_def miss split: sum.splits)
  show "table (snd (get_all_templates e w True lim off)) = table w"
    by (simp add: get_all_templates_def miss split: sum.splits)
  show "fst (get_all_templates e w True lim off)
          = fst (get_all_templates e (w\<lparr>redis := (redis w)(''test:template'' := None)\<rparr>) True lim off)"
    by (simp add: get_all_templates_def miss split: sum.splits)
qed

lemma read_set_raises:
  "fst (get_all_templates (e\<lparr>redis_set_raises := b\<rparr>) w uc lim off)
     = fst (get_all_templates e w uc lim off)"
  "redis_set_raises e \<Longrightarrow> snd (get_all_templates e w uc lim off) = w"
proof -
  show "fst (get_all_templates (e\<lparr>redis_set_raises := b\<rparr>) w uc lim off)
     = fst (get_all_templates e w uc lim off)"
    by (simp add: get_all_templates_def get_templates_cache_set_flag get_all_set_flag Let_def
        split: sum.splits)
  show "snd (get_all_templates e w uc lim off) = w" if "redis_set_raises e"
    using that
    by (simp add: get_all_templates_def Let_def set_templates_cache_def redis_set_def
        split: sum.splits)
qed

lemma create_delete_raises:
  "fst (create_template (e\<lparr>redis_delete_raises := b\<rparr>) w req) = fst (create_template e w req)"
  "table (snd (create_template (e\<lparr>redis_delete_raises := b\<rparr>) w req))
     = table (snd (create_template e w req))"
  "redis_delete_raises e \<Longrightarrow> redis (snd (create_template e w req)) = redis w"
  by (auto simp: create_template_def create_def new_entity_def invalidate_cache_def
      redis_delete_def split: sum.splits)

lemma update_delete_raises:
  "fst (update_template (e\<lparr>redis_delete_raises := b\<rparr>) w k req) = fst (update_template e w k req)"
  "table (snd (update_template (e\<lparr>redis_delete_raises := b\<rparr>) w k req))
     = table (snd (update_template e w k req))"
  "redis_delete_raises e \<Longrightarrow> redis (snd (update_template e w k req)) = redis w"
  by (auto simp: update_template_def update_by_id_def get_template_by_id_def get_by_id_def
      invalidate_cache_def redis_delete_def Let_def split: sum.splits option.splits exn.splits)

lemma delete_delete_raises:
  "fst (delete_template (e\<lparr>redis_delete_raises := b\<rparr>) w k) = fst (delete_template e w k)"
  "table (snd (delete_template (e\<lparr>redis_delete_raises := b\<rparr>) w k))
     = table (snd (delete_template e w k))"
  "redis_delete_raises e \<Longrightarrow> redis (snd (delete_template e w k)) = redis w"
  by (auto simp: delete_template_def delete_by_id_def invalidate_cache_def redis_delete_def
      Let_def split: sum.splits)


text \<open>
  Claim C2. The three cache operations return a value in every case: a call of the cache
  client that raises makes \<open>get_templates_cache\<close> answer \<open>None\<close> and leaves the cache as
  it was under \<open>set_templates_cache\<close> and \<open>invalidate_cache\<close>. Around them, a listing read
  whose cache read raises returns what the read without cache returns and what a read that
  misses returns; a cache write that raises changes neither the result nor the world; an
  invalidation that raises changes neither the result of a mutation nor the table, and
  leaves the cache untouched.
\<close>

theorem cache_failures_absorbed:
  "(redis_get_raises e \<longrightarrow>
      get_templates_cache e r key = PNone
    \<and> fst (get_all_templates e w True lim off) = fst (get_all_templates e w False lim off)
    \<and> fst (get_all_templates e w True lim off)
        = fst (get_all_templates e (w\<lparr>redis := (redis w)(''test:template'' := None)\<rparr>) True lim off)
    \<and> table (snd (get_all_templates e w True lim off)) = table w)
   \<and> (redis_set_raises e \<longrightarrow>
      set_templates_cache e r key ts ttl = r
    \<and> snd (get_all_templates e w uc lim off) = w)
   \<and> fst (get_all_templates (e\<lparr>redis_set_raises := b\<rparr>) w uc lim off)
        = fst (get_all_templates e w uc lim off)
   \<and> (redis_delete_raises e \<longrightarrow>
      invalidate_cache e r key = r
    \<and> redis (snd (create_template e w req)) = redis w
    \<and> redis (snd (update_template e w k upd)) = redis w
    \<and> redis (snd (delete_template e w k)) = redis w)
   \<and> fst (create_template (e\<lparr>redis_delete_raises := b\<rparr>) w req) = fst (create_template e w req)
   \<and> table (snd (create_template (e\<lparr>redis_delete_raises := b\<rparr>) w req))
        = table (snd (create_template e w req))
   \<and> fst (update_template (e\<lparr>redis_delete_raises := b\<rparr>) w k upd) = fst (update_template e w k upd)
   \<and> table (snd (update_template (e\<lparr>redis_delete_raises := b\<rparr>) w k upd))
        = table (snd (update_template e w k upd))
   \<and> fst (delete_template (e\<lparr>redis_delete_raises := b\<rparr>) w k) = fst (delete_template e w k)
   \<and> table (snd (delete_template (e\<lparr>redis_delete_raises := b\<rparr>) w k))
        = table (snd (delete_template e w k))"
  apply (intro conjI impI)
  subgoal by (rule cache_calls_absorb)
  subgoal by (rule read_get_raises)
  subgoal by (rule read_get_raises)
  subgoal by (rule read_get_raises)
  subgoal by (rule cache_calls_absorb)
  subgoal by (rule read_set_raises)
  subgoal by (rule read_set_raises)
  subgoal by (rule cache_calls_absorb)
  subgoal by (rule create_delete_raises)
  subgoal by (rule update_delete_raises)
  subgoal by (rule delete_delete_raises)
  subgoal by (rule create_delete_raises)
  subgoal by (rule create_delete_raises)
  subgoal by (rule update_delete_raises)
  subgoal by (rule update_delete_raises)
  subgoal by (rule delete_delete_raises)
  subgoal by (rule delete_delete_raises)
  done

text \<open>The theorem of C2 at calls whose cache client raises.\<close>

theorem cache_failures_absorbed_witness:
  "fst (get_all_templates (env0\<lparr>redis_get_raises := True\<rparr>) world0 True 100 0)
     = Inr \<lparr>source = ''db'', templates = [model_validate_item item0], total' = Some 1,
            limit = Some 100, offset = Some 0\<rparr>
   \<and> snd (get_all_templates (env0\<lparr>redis_set_raises := True\<rparr>) world0 True 100 0) = world0
   \<and> redis (snd (create_template (env0\<lparr>redis_delete_raises := True\<rparr>) world0 req0)) = redis world0
   \<and> fst (create_template (env0\<lparr>redis_delete_raises := True\<rparr>) world0 req0)
       = fst (create_template env0 world0 req0)"
proof -
  have g: "redis_get_raises (env0\<lparr>redis_get_raises := True\<rparr>)" by simp
  have s: "redis_set_raises (env0\<lparr>redis_set_raises := True\<rparr>)" by simp
  have d: "redis_delete_raises (env0\<lparr>redis_delete_raises := True\<rparr>)" by simp
  have db: "fst (get_all_templates (env0\<lparr>redis_get_raises := True\<rparr>) world0 False 100 0)
     = Inr \<lparr>source = ''db'', templates = [model_validate_item item0], total' = Some 1,
            limit = Some 100, offset = Some 0\<rparr>"
    by (simp add: get_all_templates_def get_all_def example_defs)
  from cache_failures_absorbed [where e = "env0\<lparr>redis_get_raises := True\<rparr>" and w = world0 and lim = 100 and off = 0] g db
  have 1: "fst (get_all_templates (env0\<lparr>redis_get_raises := True\<rparr>) world0 True 100 0)
     = Inr \<lparr>source = ''db'', templates = [model_validate_item item0], total' = Some 1,
            limit = Some 100, offset = Some 0\<rparr>" by simp
  from cache_failures_absorbed [where e = "env0\<lparr>redis_set_raises := True\<rparr>" and w = world0 and uc = True and lim = 100 and off = 0] s
  have 2: "snd (get_all_templates (env0\<lparr>redis_set_raises := True\<rparr>) world0 True 100 0) = world0"
    by blast
  from cache_failures_absorbed [where e = "env0\<lparr>redis_delete_raises := True\<rparr>" and w = world0 and req = req0] d
  have 3: "redis (snd (create_template (env0\<lparr>redis_delete_raises := True\<rparr>) world0 req0)) = redis world0"
    by blast
  from cache_failures_absorbed [where e = env0 and w = world0 and req = req0 and b = True]
  have 4: "fst (create_template (env0\<lparr>redis_delete_raises := True\<rparr>) world0 req0)
       = fst (create_template env0 world0 req0)" by blast
  from 1 2 3 4 show ?thesis by blast
qed

lemmas json_eval = json_loads_def skip_ws_def is_ws_def dquote_def backslash_def
  match_number_def match_fraction_def match_exponent_def is_digit_def code_point_def
  nat_of_digits_def hex_value_def unescape_def push_char_def is_hex_digit_def
  scan_once.simps parse_array.simps parse_object.simps

lemma fixed_digits_numeral:
  "fixed_digits b (numeral k) n = fixed_digits b (pred_numeral k) (n div b) @ [digit_char (n mod b)]"
  by (simp add: numeral_eq_Suc)

lemma py_split_max_numeral:
  "py_split_max sep (numeral k) s =
     (case find_sep sep s of None \<Rightarrow> [s] | Some (a, b) \<Rightarrow> a # py_split_max sep (pred_numeral k) b)"
  by (simp add: numeral_eq_Suc)

lemma cached_item0_text:
  "cached_item0 = CHR ''['' # CHR ''{'' # dquote # ''id'' @ dquote # '': '' @ dquote # ''00000000-0000-0000-0000-000000000001'' @ dquote # '', ''
      @ dquote # ''title'' @ dquote # '': '' @ dquote # ''X'' @ dquote # '', ''
      @ dquote # ''body'' @ dquote # '': null, ''
      @ dquote # ''status'' @ dquote # '': '' @ dquote # ''DRAFT'' @ dquote # '', ''
      @ dquote # ''created_at'' @ dquote # '': '' @ dquote # ''2023-01-01 12:00:00'' @ dquote # '', ''
      @ dquote # ''updated_at'' @ dquote # '': '' @ dquote # ''2023-01-01 12:00:00'' @ dquote # ''}]''"
  by (simp add: cached_item0_def model_dump_def model_validate_item_def example_defs
      json_string_def json_escape_char_def str_uuid_def str_datetime_def status_value_def
      digit_char_def dquote_def backslash_def code_point_def fixed_digits_numeral)

lemma cached_item0_loads:
  "json_loads cached_item0 =
     Inr (PList [PDict [(''id'', PStr ''00000000-0000-0000-0000-000000000001''),
                        (''title'', PStr ''X''), (''body'', PNone), (''status'', PStr ''DRAFT''),
                        (''created_at'', PStr ''2023-01-01 12:00:00''),
                        (''updated_at'', PStr ''2023-01-01 12:00:00'')]])"
  unfolding cached_item0_text by (simp add: json_eval)

lemma cached_item0_validates:
  "validate_each [PDict [(''id'', PStr ''00000000-0000-0000-0000-000000000001''),
                        (''title'', PStr ''X''), (''body'', PNone), (''status'', PStr ''DRAFT''),
                        (''created_at'', PStr ''2023-01-01 12:00:00''),
                        (''updated_at'', PStr ''2023-01-01 12:00:00'')]]
    = Inr [model_validate_item item0]"
  by (simp add: model_validate_def validate_uuid_def validate_str_def validate_optional_str_def
      validate_status_def validate_datetime_def uuid_of_str_def datetime_of_str_def
      valid_datetime_def days_in_month_def nat_of_digits_def hex_value_def is_hex_digit_def
      is_digit_def code_point_def model_validate_item_def example_defs)


lemma json_loads_Nil: "json_loads [] = Inl JSONDecodeError"
  by (simp add: json_loads_def skip_ws_def scan_once.simps)

lemma json_loads_empty_list: "json_loads ''[]'' = Inr (PList [])"
  by (simp add: json_eval)

lemma get_templates_cache_loaded:
  assumes "r key = Some (cached, expires)" "redis_now e < expires" "\<not> redis_get_raises e"
    "json_loads cached = Inr v"
  shows "get_templates_cache e r key = v"
proof -
  from assms(4) have "cached \<noteq> []" using json_loads_Nil by auto
  with assms show ?thesis by (simp add: get_templates_cache_def redis_get_def)
qed

lemma validate_each_length: "validate_each items = Inr ts \<Longrightarrow> length ts = length items"
  by (induction items arbitrary: ts) (auto split: sum.splits)

subsection \<open>Claim C3\<close>

lemma get_all_templates_truthy:
  assumes "py_truthy (get_templates_cache e (redis w) ''test:template'')"
  shows "get_all_templates e w True lim off =
     (case py_iter (get_templates_cache e (redis w) ''test:template'') of
        Inl x \<Rightarrow> (Inl x, w)
      | Inr items \<Rightarrow>
          (case validate_each items of
             Inl x \<Rightarrow> (Inl x, w)
           | Inr ts \<Rightarrow>
               (Inr \<lparr>source = ''redis'', templates = ts, total' = Some (int (length ts)),
                     limit = Some lim, offset = Some off\<rparr>, w)))"
  using assms by (simp add: get_all_templates_def)








lemma json_hit:
  assumes "redis w ''test:template'' = Some (cached, expires)" "redis_now e < expires"
    "\<not> redis_get_raises e" "json_loads cached = Inr (PList items)" "items \<noteq> []"
  shows "get_all_templates e w True lim off =
     (case validate_each items of
        Inl x \<Rightarrow> (Inl x, w)
      | Inr ts \<Rightarrow>
          (Inr \<lparr>source = ''redis'', templates = ts, total' = Some (int (length items)),
                limit = Some lim, offset = Some off\<rparr>, w))"
proof -
  have g: "get_templates_cache e (redis w) ''test:template'' = PList items"
    by (rule get_templates_cache_loaded [where r = "redis w", OF assms(1-4)])
  have t: "py_truthy (get_templates_cache e (redis w) ''test:template'')"
    using assms(5) by (simp add: g)
  show ?thesis unfolding get_all_templates_truthy [OF t]
    by (auto simp: g dest: validate_each_length split: sum.splits)
qed







lemma get_all_templates_miss:
  assumes "\<not> py_truthy (get_templates_cache e (redis w) ''test:template'')"
  shows "get_all_templates e w True lim off =
     (case get_all e (table w) (Some lim) (Some off) of
        Inl x \<Rightarrow> (Inl x, w)
      | Inr ents \<Rightarrow>
          (Inr \<lparr>source = ''db'', templates = map model_validate_item ents,
                total' = Some (int (length ents)), limit = Some lim, offset = Some off\<rparr>,
           w\<lparr>redis := set_templates_cache e (redis w) ''test:template''
                         (map model_dump (map model_validate_item ents)) 30\<rparr>))"
  using assms by (simp add: get_all_templates_def Let_def split: sum.splits)

lemma get_all_templates_no_cache:
  "get_all_templates e w False lim off =
     (case get_all e (table w) (Some lim) (Some off) of
        Inl x \<Rightarrow> (Inl x, w)
      | Inr ents \<Rightarrow>
          (Inr \<lparr>source = ''db'', templates = map model_validate_item ents,
                total' = Some (int (length ents)), limit = Some lim, offset = Some off\<rparr>, w))"
  by (cases w) (simp add: get_all_templates_def Let_def split: sum.splits)

lemma set_templates_cache_written:
  "\<not> redis_set_raises e \<Longrightarrow> 0 < ttl \<Longrightarrow>
   set_templates_cache e r key ts ttl = r(key \<mapsto> (json_dumps (PList ts), redis_now e + nat ttl))"
  by (simp add: set_templates_cache_def redis_set_def)

lemma get_templates_cache_no_items:
  assumes "caches_no_items w"
  shows "get_templates_cache e (redis w) ''test:template'' = PNone
       \<or> get_templates_cache e (redis w) ''test:template'' = PList []"
  using assms
  by (auto simp: caches_no_items_def get_templates_cache_def redis_get_def json_loads_empty_list
      split: option.splits)

lemma empty_store_read:
  assumes "table w = []" "caches_no_items w"
  shows "table (snd (get_all_templates e w uc lim off)) = []
       \<and> caches_no_items (snd (get_all_templates e w uc lim off))
       \<and> (\<forall>res. fst (get_all_templates e w uc lim off) = Inr res
             \<longrightarrow> source res = ''db'' \<and> templates res = [])"
proof (cases uc)
  case False
  with assms show ?thesis
    by (auto simp: get_all_templates_no_cache get_all_def Let_def split: sum.splits if_splits)
next
  case True
  from get_templates_cache_no_items [OF assms(2), of e]
  have miss: "\<not> py_truthy (get_templates_cache e (redis w) ''test:template'')" by auto
  have set: "caches_no_items (w\<lparr>redis := set_templates_cache e (redis w) ''test:template'' [] 30\<rparr>)"
    using assms(2)
    by (auto simp: caches_no_items_def set_templates_cache_def redis_set_def split: option.splits)
  from True have uc: "uc = True" by simp
  show ?thesis unfolding uc get_all_templates_miss [OF miss]
    using assms set
    by (auto simp: get_all_def Let_def split: sum.splits if_splits)
qed

lemma empty_store_reads:
  "table w = [] \<Longrightarrow> caches_no_items w \<Longrightarrow>
   table (listing_reads w rs) = [] \<and> caches_no_items (listing_reads w rs)"
proof (induction rs arbitrary: w)
  case Nil
  then show ?case by simp
next
  case (Cons r rs)
  obtain e uc lim off where r: "r = (e, uc, lim, off)" by (cases r)
  from empty_store_read [OF Cons.prems, of e uc lim off] Cons.IH show ?case
    by (simp add: r)
qed

subsection \<open>Claim C8\<close>

text \<open>
  Claim C8, as amended. A cache entry that decodes to the empty list is a miss: the cache-enabled read
  loads the page from the store, answers with the source \<^verbatim>\<open>db\<close>, and writes the page it
  loaded back under the listing key with 30 seconds to live (when the cache client does
  not raise). Hence over an empty table whose cache entry is absent or the empty list,
  after any number of listing reads of any kind, a read is served from the store with no
  templates, never from the cache.
\<close>

theorem empty_cached_list_is_a_miss:
  "(redis w ''test:template'' = Some (cached, expires) \<and> redis_now e < expires
      \<and> \<not> redis_get_raises e \<and> json_loads cached = Inr (PList []) \<longrightarrow>
      get_all_templates e w True lim off =
        (case get_all e (table w) (Some lim) (Some off) of
           Inl x \<Rightarrow> (Inl x, w)
         | Inr ents \<Rightarrow>
             (Inr \<lparr>source = ''db'', templates = map model_validate_item ents,
                   total' = Some (int (length ents)), limit = Some lim, offset = Some off\<rparr>,
              w\<lparr>redis := set_templates_cache e (redis w) ''test:template''
                            (map model_dump (map model_validate_item ents)) 30\<rparr>)))
   \<and> (\<not> redis_set_raises e \<longrightarrow>
        set_templates_cache e r ''test:template'' ts 30
          = r(''test:template'' \<mapsto> (json_dumps (PList ts), redis_now e + 30)))
   \<and> (table w = [] \<and> caches_no_items w \<longrightarrow>
        (\<forall>res. fst (get_all_templates e (listing_reads w reads) use_cache lim off) = Inr res
           \<longrightarrow> source res = ''db'' \<and> templates res = []))"
proof (intro conjI impI)
  assume a: "redis w ''test:template'' = Some (cached, expires) \<and> redis_now e < expires
      \<and> \<not> redis_get_raises e \<and> json_loads cached = Inr (PList [])"
  then have "get_templates_cache e (redis w) ''test:template'' = PList []"
    using get_templates_cache_loaded [where r = "redis w" and key = "''test:template''"] by blast
  then have "\<not> py_truthy (get_templates_cache e (redis w) ''test:template'')" by simp
  from get_all_templates_miss [OF this]
  show "get_all_templates e w True lim off =
        (case get_all e (table w) (Some lim) (Some off) of
           Inl x \<Rightarrow> (Inl x, w)
         | Inr ents \<Rightarrow>
             (Inr \<lparr>source = ''db'', templates = map model_validate_item ents,
                   total' = Some (int (length ents)), limit = Some lim, offset = Some off\<rparr>,
              w\<lparr>redis := set_templates_cache e (redis w) ''test:template''
                            (map model_dump (map model_validate_item ents)) 30\<rparr>))" .
next
  assume "\<not> redis_set_raises e"
  then show "set_templates_cache e r ''test:template'' ts 30
          = r(''test:template'' \<mapsto> (json_dumps (PList ts), redis_now e + 30))"
    by (simp add: set_templates_cache_written)
next
  assume "table w = [] \<and> caches_no_items w"
  then have "table (listing_reads w reads) = []" "caches_no_items (listing_reads w reads)"
    using empty_store_reads by blast+
  from empty_store_read [OF this]
  show "\<forall>res. fst (get_all_templates e (listing_reads w reads) use_cache lim off) = Inr res
           \<longrightarrow> source res = ''db'' \<and> templates res = []" by blast
qed


text \<open>The theorem of C8 at a cache that holds the empty list: over a table of one row, and
  over an empty table after two earlier reads.\<close>

theorem empty_cached_list_is_a_miss_witness:
  "get_all_templates env0 world0 True 100 0 =
     (Inr \<lparr>source = ''db'', templates = [model_validate_item item0], total' = Some 1,
           limit = Some 100, offset = Some 0\<rparr>,
      \<lparr>table = [item0], redis = [''test:template'' \<mapsto> (cached_item0, 130)]\<rparr>)
   \<and> fst (get_all_templates env0
             (listing_reads world_empty [(env0, True, 100, 0), (env0, False, 1, 0)]) True 100 0)
       = Inr \<lparr>source = ''db'', templates = [], total' = Some 0, limit = Some 100,
              offset = Some 0\<rparr>"
proof -
  have h: "redis world0 ''test:template'' = Some (''[]'', 120) \<and> redis_now env0 < 120
      \<and> \<not> redis_get_raises env0 \<and> json_loads ''[]'' = Inr (PList [])"
    by (simp add: example_defs json_loads_empty_list)
  have s: "\<not> redis_set_raises env0" by (simp add: example_defs)
  have e: "table world_empty = [] \<and> caches_no_items world_empty"
    by (simp add: world_empty_def caches_no_items_def)
  note inst = empty_cached_list_is_a_miss [where e = env0 and lim = 100 and off = 0]
  from inst [where w = world0 and cached = "''[]''" and expires = 120] h
  have 1: "get_all_templates env0 world0 True 100 0 =
        (case get_all env0 (table world0) (Some 100) (Some 0) of
           Inl x \<Rightarrow> (Inl x, world0)
         | Inr ents \<Rightarrow>
             (Inr \<lparr>source = ''db'', templates = map model_validate_item ents,
                   total' = Some (int (length ents)), limit = Some 100, offset = Some 0\<rparr>,
              world0\<lparr>redis := set_templates_cache env0 (redis world0) ''test:template''
                            (map model_dump (map model_validate_item ents)) 30\<rparr>))"
    by blast
  from inst [where r = "redis world0" and ts = "[model_dump (model_validate_item item0)]"] s
  have 2: "set_templates_cache env0 (redis world0) ''test:template''
             [model_dump (model_validate_item item0)] 30
          = (redis world0)(''test:template'' \<mapsto>
               (json_dumps (PList [model_dump (model_validate_item item0)]), redis_now env0 + 30))"
    by blast
  have g: "get_all env0 (table world0) (Some 100) (Some 0) = Inr [item0]"
    by (simp add: get_all_def example_defs)
  have first: "get_all_templates env0 world0 True 100 0 =
     (Inr \<lparr>source = ''db'', templates = [model_validate_item item0], total' = Some 1,
           limit = Some 100, offset = Some 0\<rparr>,
      \<lparr>table = [item0], redis = [''test:template'' \<mapsto> (cached_item0, 130)]\<rparr>)"
    unfolding 1 g by (simp add: 2 cached_item0_def) (simp add: example_defs)
  from inst [where w = world_empty and use_cache = True
      and reads = "[(env0, True, 100, 0), (env0, False, 1, 0)]"] e
  have 3: "\<forall>res. fst (get_all_templates env0
             (listing_reads world_empty [(env0, True, 100, 0), (env0, False, 1, 0)]) True 100 0)
           = Inr res \<longrightarrow> source res = ''db'' \<and> templates res = []"
    by blast
  have tbl: "table (listing_reads world_empty [(env0, True, 100, 0), (env0, False, 1, 0)]) = []"
    using empty_store_reads e by blast
  have nc: "caches_no_items (listing_reads world_empty [(env0, True, 100, 0), (env0, False, 1, 0)])"
    using empty_store_reads e by blast
  from get_templates_cache_no_items [OF nc, of env0]
  have miss: "\<not> py_truthy (get_templates_cache env0
      (redis (listing_reads world_empty [(env0, True, 100, 0), (env0, False, 1, 0)])) ''test:template'')"
    by auto
  have second: "fst (get_all_templates env0
             (listing_reads world_empty [(env0, True, 100, 0), (env0, False, 1, 0)]) True 100 0)
       = Inr \<lparr>source = ''db'', templates = [], total' = Some 0, limit = Some 100,
              offset = Some 0\<rparr>"
    unfolding get_all_templates_miss [OF miss] tbl
    by (simp add: get_all_def example_defs)
  from first second 3 show ?thesis by blast
qed

lemma cached_item0_hit:
  assumes "redis w ''test:template'' = Some (cached_item0, expires)" "redis_now e < expires"
    "\<not> redis_get_raises e"
  shows "get_all_templates e w True lim off =
     (Inr \<lparr>source = ''redis'', templates = [model_validate_item item0], total' = Some 1,
           limit = Some lim, offset = Some off\<rparr>, w)"
proof -
  have h: "get_all_templates e w True lim off =
     (case validate_each [PDict [(''id'', PStr ''00000000-0000-0000-0000-000000000001''),
                        (''title'', PStr ''X''), (''body'', PNone), (''status'', PStr ''DRAFT''),
                        (''created_at'', PStr ''2023-01-01 12:00:00''),
                        (''updated_at'', PStr ''2023-01-01 12:00:00'')]] of
        Inl x \<Rightarrow> (Inl x, w)
      | Inr ts \<Rightarrow>
          (Inr \<lparr>source = ''redis'', templates = ts, total' = Some (int (length
             [PDict [(''id'', PStr ''00000000-0000-0000-0000-000000000001''),
                        (''title'', PStr ''X''), (''body'', PNone), (''status'', PStr ''DRAFT''),
                        (''created_at'', PStr ''2023-01-01 12:00:00''),
                        (''updated_at'', PStr ''2023-01-01 12:00:00'')]])),
                limit = Some lim, offset = Some off\<rparr>, w))"
    by (rule json_hit [OF assms cached_item0_loads]) simp
  show ?thesis unfolding h cached_item0_validates by simp
qed

text \<open>Claim C8 as stated fails in its last part: a listing over an empty store is served
  with source \<^verbatim>\<open>redis\<close> when the cache still holds an entry of an earlier state of the
  table. Here a read fills the cache, the only row is deleted while the cache client fails
  to delete the entry, and the next read serves the deleted row from the cache.\<close>

theorem stale_entry_served_over_empty_table:
  "get_all_templates env0 world_fresh True 100 0 =
     (Inr \<lparr>source = ''db'', templates = [model_validate_item item0], total' = Some 1,
           limit = Some 100, offset = Some 0\<rparr>,
      \<lparr>table = [item0], redis = [''test:template'' \<mapsto> (cached_item0, 130)]\<rparr>)
   \<and> delete_template env_delete_fails
        \<lparr>table = [item0], redis = [''test:template'' \<mapsto> (cached_item0, 130)]\<rparr> 1
       = (Inr True, world_stale)
   \<and> table world_stale = []
   \<and> get_all_templates env0 world_stale True 100 0 =
     (Inr \<lparr>source = ''redis'', templates = [model_validate_item item0], total' = Some 1,
           limit = Some 100, offset = Some 0\<rparr>, world_stale)"
proof -
  have miss: "\<not> py_truthy (get_templates_cache env0 (redis world_fresh) ''test:template'')"
    by (simp add: get_templates_cache_def redis_get_def world_fresh_def example_defs)
  have s: "set_templates_cache env0 (redis world_fresh) ''test:template''
             [model_dump (model_validate_item item0)] 30
           = [''test:template'' \<mapsto> (cached_item0, 130)]"
    by (simp add: set_templates_cache_def redis_set_def cached_item0_def world_fresh_def env0_def)
  have 1: "get_all_templates env0 world_fresh True 100 0 =
     (Inr \<lparr>source = ''db'', templates = [model_validate_item item0], total' = Some 1,
           limit = Some 100, offset = Some 0\<rparr>,
      \<lparr>table = [item0], redis = [''test:template'' \<mapsto> (cached_item0, 130)]\<rparr>)"
  proof -
    have g: "get_all env0 (table world_fresh) (Some 100) (Some 0) = Inr [item0]"
      by (simp add: get_all_def world_fresh_def example_defs)
    show ?thesis
      unfolding get_all_templates_miss [OF miss] g
      by (simp add: s) (simp add: world_fresh_def)
  qed
  have 2: "delete_template env_delete_fails
        \<lparr>table = [item0], redis = [''test:template'' \<mapsto> (cached_item0, 130)]\<rparr> 1
       = (Inr True, world_stale)"
    by (simp add: delete_template_def delete_by_id_def invalidate_cache_def redis_delete_def
        env_delete_fails_def world_stale_def example_defs)
  have 3: "get_all_templates env0 world_stale True 100 0 =
     (Inr \<lparr>source = ''redis'', templates = [model_validate_item item0], total' = Some 1,
           limit = Some 100, offset = Some 0\<rparr>, world_stale)"
    by (rule cached_item0_hit [where expires = 130]) (simp_all add: world_stale_def example_defs)
  from 1 2 3 show ?thesis by (simp add: world_stale_def)
qed

subsection \<open>Claim C10\<close>

lemma py_split_unfold:
  "sep \<noteq> [] \<Longrightarrow> py_split sep s =
     (case find_sep sep s of None \<Rightarrow> [s] | Some (a, b) \<Rightarrow> a # py_split sep b)"
  by (subst py_split.simps) simp

lemma py_split_nonempty: "py_split sep s \<noteq> []"
  by (subst py_split.simps) (simp split: option.splits)

lemma py_split_max_length:
  "sep \<noteq> [] \<Longrightarrow> length (py_split_max sep k s) = min (Suc k) (length (py_split sep s))"
proof (induction k arbitrary: s)
  case 0
  have "length (py_split sep s) \<ge> 1" using py_split_nonempty [of sep s]
    by (cases "py_split sep s") auto
  then show ?case by simp
next
  case (Suc k)
  show ?case
  proof (cases "find_sep sep s")
    case None
    with Suc.prems show ?thesis by (simp add: py_split_unfold del: py_split.simps)
  next
    case (Some ab)
    obtain a b where "ab = (a, b)" by (cases ab)
    with Some Suc.prems Suc.IH [OF Suc.prems, of b] show ?thesis
      by (simp add: py_split_unfold [of sep s] del: py_split.simps)
  qed
qed

lemma py_split_max_hd:
  "sep \<noteq> [] \<Longrightarrow> hd (py_split_max sep (Suc k) s) = hd (py_split sep s)"
  by (simp add: py_split_unfold [of sep s] del: py_split.simps split: option.splits)

lemma legacy_item_ok:
  assumes "legacy_segment_ok s"
  shows "legacy_item s = Inr (legacy_dict s)"
proof -
  define parts where "parts = py_split_max ''::'' 3 s"
  have len: "length parts = 4"
    using assms py_split_max_length [of "''::''" 3 s]
    by (simp add: parts_def legacy_segment_ok_def)
  have "hd parts = hd (py_split ''::'' s)"
    unfolding parts_def using py_split_max_hd [of "''::''" 2 s] by (simp add: numeral_3_eq_3)
  moreover from len have "hd parts = parts ! 0" by (cases parts) auto
  ultimately obtain n where n: "py_int (parts ! 0) = Some n"
    using assms by (auto simp: legacy_segment_ok_def)
  show ?thesis
    unfolding legacy_item_def legacy_dict_def parts_def [symmetric] Let_def
    using len n by (simp add: py_index_def)
qed

lemma legacy_item_not_ok:
  assumes "\<not> legacy_segment_ok s"
  shows "\<exists>x. legacy_item s = Inl x"
proof -
  define parts where "parts = py_split_max ''::'' 3 s"
  have len: "length parts = min 4 (length (py_split ''::'' s))"
    using py_split_max_length [of "''::''" 3 s] by (simp add: parts_def)
  have ne: "parts \<noteq> []" using len py_split_nonempty [of "''::''" s]
    by (cases "py_split ''::'' s") auto
  have hd: "parts ! 0 = hd (py_split ''::'' s)"
    using py_split_max_hd [of "''::''" 2 s] ne
    by (cases parts) (auto simp: parts_def numeral_3_eq_3)
  from assms consider "py_int (parts ! 0) = None" | "length parts < 4"
    using len hd by (auto simp: legacy_segment_ok_def)
  then show ?thesis
  proof cases
    case 1
    then show ?thesis
      unfolding legacy_item_def parts_def [symmetric] Let_def
      using ne by (simp add: py_index_def)
  next
    case 2
    then show ?thesis
      unfolding legacy_item_def parts_def [symmetric] Let_def
      by (auto simp: py_index_def split: sum.splits option.splits)
  qed
qed

lemma legacy_items_ok:
  "\<forall>s\<in>set segs. s \<noteq> [] \<longrightarrow> legacy_segment_ok s \<Longrightarrow>
   legacy_items acc segs = Inr (acc @ map legacy_dict (filter (\<lambda>s. s \<noteq> []) segs))"
  by (induction segs arbitrary: acc) (auto simp: legacy_item_ok)

lemma legacy_items_not_ok:
  "\<exists>s\<in>set segs. s \<noteq> [] \<and> \<not> legacy_segment_ok s \<Longrightarrow> \<exists>x. legacy_items acc segs = Inl x"
proof (induction segs arbitrary: acc)
  case Nil
  then show ?case by simp
next
  case (Cons s segs)
  show ?case
  proof (cases "s = []")
    case True
    with Cons show ?thesis by auto
  next
    case False
    show ?thesis
    proof (cases "legacy_segment_ok s")
      case True
      with False Cons.prems have "\<exists>s\<in>set segs. s \<noteq> [] \<and> \<not> legacy_segment_ok s" by auto
      from Cons.IH [OF this] show ?thesis
        using False legacy_item_ok [OF True] by simp
    next
      case nok: False
      from legacy_item_not_ok [OF nok] obtain x where "legacy_item s = Inl x" by blast
      with False show ?thesis by simp
    qed
  qed
qed

lemma get_templates_cache_legacy:
  assumes "redis_get e r key = Inr (Some cached)" "json_loads cached = Inl JSONDecodeError"
  shows "get_templates_cache e r key =
     (if cached \<noteq> [] \<and> (\<forall>s\<in>set (py_split ''||'' cached). s \<noteq> [] \<longrightarrow> legacy_segment_ok s)
      then PList (map legacy_dict (filter (\<lambda>s. s \<noteq> []) (py_split ''||'' cached)))
      else PNone)"
proof (cases "\<forall>s\<in>set (py_split ''||'' cached). s \<noteq> [] \<longrightarrow> legacy_segment_ok s")
  case True
  from legacy_items_ok [OF True, of "[]"] assms True show ?thesis
    by (simp add: get_templates_cache_def del: py_split.simps)
next
  case False
  then have "\<exists>s\<in>set (py_split ''||'' cached). s \<noteq> [] \<and> \<not> legacy_segment_ok s" by blast
  from legacy_items_not_ok [OF this, of "[]"] obtain x
    where "legacy_items [] (py_split ''||'' cached) = Inl x" by blast
  with assms False show ?thesis
    by (simp add: get_templates_cache_def del: py_split.simps)
qed


lemma digit_char_mem: "d < 16 \<Longrightarrow> digit_char d \<in> set ''0123456789abcdef''"
  unfolding digit_char_def by (rule nth_mem) simp

lemma fixed_digits_chars:
  "0 < b \<Longrightarrow> b \<le> 16 \<Longrightarrow> set (fixed_digits b k n) \<subseteq> set ''0123456789abcdef''"
proof (induction k arbitrary: n)
  case 0
  then show ?case by simp
next
  case (Suc k)
  have "n mod b < 16" using Suc.prems by (meson mod_less_divisor less_le_trans)
  from digit_char_mem [OF this] Suc.IH [OF Suc.prems, of "n div b"] show ?case by auto
qed

lemma fixed_digits_length [simp]: "length (fixed_digits b k n) = k"
  by (induction k arbitrary: n) auto

lemma str_uuid_chars: "set (str_uuid u) \<subseteq> insert CHR ''-'' (set ''0123456789abcdef'')"
proof -
  define H where "H = set ''0123456789abcdef''"
  define h where "h = fixed_digits 16 32 (unat u)"
  have h: "set h \<subseteq> H"
    unfolding H_def h_def by (rule fixed_digits_chars) simp_all
  have t: "set (take n (drop m h)) \<subseteq> H" for n m
    using h set_take_subset [of n "drop m h"] set_drop_subset [of m h] by blast
  have t0: "set (take n h) \<subseteq> H" for n
    using h set_take_subset [of n h] by blast
  have d: "set (drop m h) \<subseteq> H" for m
    using h set_drop_subset [of m h] by blast
  have "set (str_uuid u) \<subseteq> insert CHR ''-'' H"
    unfolding str_uuid_def h_def [symmetric] Let_def set_append
    using t0 [of 8] t [of 4 8] t [of 4 12] t [of 4 16] d [of 20] by auto
  then show ?thesis by (simp only: H_def)
qed

lemma str_uuid_shape:
  "\<exists>c a b. str_uuid u = c # a @ CHR ''-'' # b \<and> c \<in> set ''0123456789abcdef''"
proof -
  define h where "h = fixed_digits 16 32 (unat u)"
  have len: "length h = 32" by (simp add: h_def)
  then obtain c t where h: "h = c # t" by (cases h) auto
  have "set h \<subseteq> set ''0123456789abcdef''"
    unfolding h_def by (rule fixed_digits_chars) simp_all
  then have "c \<in> set ''0123456789abcdef''" unfolding h by simp
  moreover have "str_uuid u = c # take 7 t @ CHR ''-'' #
      (take 4 (drop 8 h) @ ''-'' @ take 4 (drop 12 h) @ ''-'' @ take 4 (drop 16 h) @ ''-'' @ drop 20 h)"
    unfolding str_uuid_def h_def [symmetric] Let_def by (simp add: h)
  ultimately show ?thesis by blast
qed

lemma int_digits_bad_char:
  "x \<in> set s \<Longrightarrow> \<not> is_digit x \<Longrightarrow> x \<noteq> CHR ''_'' \<Longrightarrow> int_digits acc s = None"
  by (induction acc s rule: int_digits.induct) auto

lemma py_strip_no_space: "\<forall>c\<in>set s. \<not> is_space c \<Longrightarrow> py_strip s = s"
proof -
  assume a: "\<forall>c\<in>set s. \<not> is_space c"
  have "dropWhile is_space xs = xs" if "\<forall>c\<in>set xs. \<not> is_space c" for xs
    using that by (cases xs) auto
  from this [of s] this [of "rev s"] a show ?thesis by (simp add: py_strip_def)
qed

lemma py_int_str_uuid: "py_int (str_uuid u) = None"
proof -
  from str_uuid_shape obtain c a b where s: "str_uuid u = c # a @ CHR ''-'' # b"
    and c: "c \<in> set ''0123456789abcdef''" by blast
  have "\<forall>x\<in>set (str_uuid u). \<not> is_space x"
    using str_uuid_chars [of u] by (auto simp: is_space_def code_point_def)
  then have strip: "py_strip (str_uuid u) = str_uuid u" by (rule py_strip_no_space)
  have bad: "int_digits n (a @ CHR ''-'' # b) = None" for n
    by (rule int_digits_bad_char [of "CHR ''-''"]) (simp_all add: is_digit_def code_point_def)
  from c have "c \<noteq> CHR ''-''" "c \<noteq> CHR ''+''" by auto
  then show ?thesis
    using strip [unfolded s] by (simp add: py_int_def s bad)
qed

lemma find_sep_first:
  "c \<notin> set a \<Longrightarrow> find_sep (c # cs) (a @ (c # cs) @ b) = Some (a, b)"
  by (induction a) auto

lemma uuid_segment_not_ok: "\<not> legacy_segment_ok (str_uuid u @ ''::'' @ rest)"
proof -
  have "CHR '':'' \<notin> set (str_uuid u)" using str_uuid_chars [of u] by auto
  from find_sep_first [OF this, of "'':''" rest]
  have "hd (py_split ''::'' (str_uuid u @ ''::'' @ rest)) = str_uuid u"
    by (simp add: py_split_unfold del: py_split.simps)
  then show ?thesis by (simp add: legacy_segment_ok_def py_int_str_uuid)
qed

text \<open>
  Claim C10. \<open>get_templates_cache\<close> returns a value for every cached text. When the text
  is not JSON, the value is the list of legacy items exactly when the text is not empty and
  every non-empty segment between \<^verbatim>\<open>||\<close> has at least four fields between \<^verbatim>\<open>::\<close> and a
  first field that \<^verbatim>\<open>int\<close> accepts; otherwise it is \<open>None\<close>. A segment whose first field is
  the text of a UUID always makes it \<open>None\<close>.
\<close>

theorem get_templates_cache_not_json:
  assumes "redis_get e r key = Inr (Some cached)" "json_loads cached = Inl JSONDecodeError"
  shows "get_templates_cache e r key =
     (if cached \<noteq> [] \<and> (\<forall>s\<in>set (py_split ''||'' cached). s \<noteq> [] \<longrightarrow> legacy_segment_ok s)
      then PList (map legacy_dict (filter (\<lambda>s. s \<noteq> []) (py_split ''||'' cached)))
      else PNone)
     \<and> ((\<exists>u rest. str_uuid u @ ''::'' @ rest \<in> set (py_split ''||'' cached))
          \<longrightarrow> get_templates_cache e r key = PNone)"
proof -
  note eq = get_templates_cache_legacy [OF assms]
  have "get_templates_cache e r key = PNone"
    if "str_uuid u @ ''::'' @ rest \<in> set (py_split ''||'' cached)" for u rest
  proof -
    have "str_uuid u @ ''::'' @ rest \<noteq> []" by simp
    with that uuid_segment_not_ok [of u rest]
    have "\<not> (\<forall>s\<in>set (py_split ''||'' cached). s \<noteq> [] \<longrightarrow> legacy_segment_ok s)" by blast
    with eq show ?thesis by simp
  qed
  with eq show ?thesis by blast
qed

lemmas py_int_eval = py_int_def py_strip_def is_space_def is_digit_def digit_value_def
  code_point_def py_split_max_numeral

text \<open>The theorem of C10 at a legacy text of two items, and at one whose id is a UUID.\<close>

theorem get_templates_cache_not_json_witness:
  "get_templates_cache env0 [''test:template'' \<mapsto> (legacy_text, 120)] ''test:template''
     = PList [PDict [(''id'', PInt 1), (''title'', PStr ''X''), (''status'', PStr ''DRAFT''),
                     (''created_at'', PStr ''2023-01-01'')],
              PDict [(''id'', PInt 2), (''title'', PStr ''Y''), (''status'', PStr ''PUBLISHED''),
                     (''created_at'', PStr ''2023-01-02'')]]
   \<and> get_templates_cache env0 [''test:template'' \<mapsto> (legacy_uuid_text, 120)] ''test:template''
     = PNone"
proof -
  have g1: "redis_get env0 [''test:template'' \<mapsto> (legacy_text, 120)] ''test:template''
      = Inr (Some legacy_text)"
    by (simp add: redis_get_def example_defs)
  have j1: "json_loads legacy_text = Inl JSONDecodeError"
    by (simp add: legacy_text_def json_eval)
  have split1: "py_split ''||'' legacy_text = [''1::X::DRAFT::2023-01-01'', ''2::Y::PUBLISHED::2023-01-02'', []]"
    by (simp add: legacy_text_def)
  have ok: "legacy_segment_ok ''1::X::DRAFT::2023-01-01''"
    "legacy_segment_ok ''2::Y::PUBLISHED::2023-01-02''"
    by (simp_all add: legacy_segment_ok_def py_int_eval)
  have d: "legacy_dict ''1::X::DRAFT::2023-01-01''
      = PDict [(''id'', PInt 1), (''title'', PStr ''X''), (''status'', PStr ''DRAFT''),
                     (''created_at'', PStr ''2023-01-01'')]"
    "legacy_dict ''2::Y::PUBLISHED::2023-01-02''
      = PDict [(''id'', PInt 2), (''title'', PStr ''Y''), (''status'', PStr ''PUBLISHED''),
                     (''created_at'', PStr ''2023-01-02'')]"
    by (simp_all add: legacy_dict_def py_int_eval)
  have 1: "get_templates_cache env0 [''test:template'' \<mapsto> (legacy_text, 120)] ''test:template''
     = PList [PDict [(''id'', PInt 1), (''title'', PStr ''X''), (''status'', PStr ''DRAFT''),
                     (''created_at'', PStr ''2023-01-01'')],
              PDict [(''id'', PInt 2), (''title'', PStr ''Y''), (''status'', PStr ''PUBLISHED''),
                     (''created_at'', PStr ''2023-01-02'')]]"
    using get_templates_cache_not_json [OF g1 j1]
    unfolding split1 by (simp add: ok d) (simp add: legacy_text_def)
  have g2: "redis_get env0 [''test:template'' \<mapsto> (legacy_uuid_text, 120)] ''test:template''
      = Inr (Some legacy_uuid_text)"
    by (simp add: redis_get_def example_defs)
  have j2: "json_loads legacy_uuid_text = Inl JSONDecodeError"
    by (simp add: legacy_uuid_text_def json_eval)
  have u: "str_uuid 0x123e4567e89b12d3a456426614174000 @ ''::'' @ ''X::DRAFT::2023-01-01''
      = legacy_uuid_text"
    by (simp add: legacy_uuid_text_def str_uuid_def digit_char_def fixed_digits_numeral)
  have "legacy_uuid_text \<in> set (py_split ''||'' legacy_uuid_text)"
    by (simp add: legacy_uuid_text_def)
  then have "str_uuid 0x123e4567e89b12d3a456426614174000 @ ''::'' @ ''X::DRAFT::2023-01-01''
      \<in> set (py_split ''||'' legacy_uuid_text)" by (simp only: u)
  then have "\<exists>u rest. str_uuid u @ ''::'' @ rest \<in> set (py_split ''||'' legacy_uuid_text)"
    by (intro exI)
  with get_templates_cache_not_json [OF g2 j2]
  have 2: "get_templates_cache env0 [''test:template'' \<mapsto> (legacy_uuid_text, 120)] ''test:template''
     = PNone" by blast
  from 1 2 show ?thesis by blast
qed

section \<open>The cache format: writing and reading back\<close>

subsection \<open>Digits\<close>












subsection \<open>Text of a string literal and back\<close>

lemma push_char_Inr_eq: "push_char c (Inr (s, rest)) = Inr (c # s, rest)"
  by (simp add: push_char_def)





subsection \<open>json.loads after json.dumps\<close>











subsection \<open>UUID, datetime and snapshot back from their text\<close>












subsection \<open>What was written is not in the legacy format\<close>









subsection \<open>Claim C7\<close>




section \<open>Mutations and the listing cache\<close>
















subsection \<open>Claim C1\<close>




end
